theory Spec2Isabelle
  imports Complex_Main "HOL-Library.Sublist"
begin

section \<open>Python strings\<close>

text \<open>
  A Python \<open>str\<close> is a sequence of Unicode code points; it is modelled as the list of
  those code points. \<open>str\<close> turns an ASCII literal into that representation. The
  string methods the program calls are modelled below with Python's semantics.
\<close>

type_synonym pystr = "nat list"

definition str :: "string \<Rightarrow> pystr" where
  "str s = map of_char s"

text \<open>\<open>sub in s\<close>: substring test.\<close>

fun py_in :: "'a list \<Rightarrow> 'a list \<Rightarrow> bool" where
  "py_in sub [] = (sub = [])"
| "py_in sub (c # cs) = (prefix sub (c # cs) \<or> py_in sub cs)"

text \<open>\<open>s.endswith(suffix)\<close>.\<close>

definition py_endswith :: "'a list \<Rightarrow> 'a list \<Rightarrow> bool" where
  "py_endswith s suf = prefix (rev suf) (rev s)"

text \<open>
  \<open>s.replace(old, new)\<close>: every non-overlapping occurrence of \<open>old\<close>, found from
  left to right, is replaced; with an empty \<open>old\<close> Python puts \<open>new\<close> before every
  character and at the end.
\<close>

function py_replace :: "'a list \<Rightarrow> 'a list \<Rightarrow> 'a list \<Rightarrow> 'a list" where
  "py_replace [] old new = (if old = [] then new else [])"
| "py_replace (c # cs) old new =
     (if old = [] then new @ c # py_replace cs old new
      else if prefix old (c # cs) then new @ py_replace (drop (length old) (c # cs)) old new
      else c # py_replace cs old new)"
  by pat_completeness auto
termination
  by (relation "measure (\<lambda>(s, old, new). length s)") auto

text \<open>\<open>s.split(sep)\<close> for a one-character separator.\<close>

fun py_split :: "'a list \<Rightarrow> 'a \<Rightarrow> 'a list list" where
  "py_split [] sep = [[]]"
| "py_split (c # cs) sep =
     (if c = sep then [] # py_split cs sep
      else (c # hd (py_split cs sep)) # tl (py_split cs sep))"

text \<open>
  \<open>s.strip()\<close> removes leading and trailing whitespace; \<open>isspace\<close> lists the code
  points Python 3 treats as whitespace.
\<close>

definition isspace :: "nat \<Rightarrow> bool" where
  "isspace c \<longleftrightarrow> c \<in> set [0x9, 0xA, 0xB, 0xC, 0xD, 0x1C, 0x1D, 0x1E, 0x1F, 0x20, 0x85, 0xA0,
     0x1680, 0x2000, 0x2001, 0x2002, 0x2003, 0x2004, 0x2005, 0x2006, 0x2007, 0x2008, 0x2009,
     0x200A, 0x2028, 0x2029, 0x202F, 0x205F, 0x3000]"

definition py_strip :: "pystr \<Rightarrow> pystr" where
  "py_strip s = rev (dropWhile isspace (rev (dropWhile isspace s)))"

text \<open>\<open>s[:n]\<close> is \<open>take n s\<close>; \<open>a or b\<close> on strings yields \<open>a\<close> unless it is empty.\<close>

definition py_or :: "pystr \<Rightarrow> pystr \<Rightarrow> pystr" where
  "py_or a b = (if a \<noteq> [] then a else b)"

text \<open>\<open>os.path.join(a, b)\<close> for two components, with the POSIX separator.\<close>

definition os_path_join :: "pystr \<Rightarrow> pystr \<Rightarrow> pystr" where
  "os_path_join a b =
     (if prefix (str ''/'') b then b
      else if a = [] \<or> py_endswith a (str ''/'') then a @ b
      else a @ str ''/'' @ b)"

section \<open>The filter predicate\<close>

text \<open>
  The loop over the semicolon-separated patterns of \<open>matches_filter\<close>: the first
  pattern that contains \<open>*.\<close> and whose extension ends the file name returns True.
\<close>

fun filter_loop :: "pystr list \<Rightarrow> pystr \<Rightarrow> bool" where
  "filter_loop [] filename = False"
| "filter_loop (filter_ext # filters) filename =
     (if py_in (str ''*.'') filter_ext then
        (let ext = py_replace filter_ext (str ''*.'') (str ''.'')
         in if py_endswith filename ext then True else filter_loop filters filename)
      else filter_loop filters filename)"

text \<open>\<open>Window.matches_filter(filename, file_filter)\<close>.\<close>

definition Window_matches_filter :: "pystr \<Rightarrow> pystr \<Rightarrow> bool" where
  "Window_matches_filter filename file_filter =
     (if file_filter = str ''*.*'' then True
      else if py_in (str ''*.'') file_filter then
        (let filters = map py_strip (py_split file_filter (of_char CHR '';''))
         in filter_loop filters filename)
      else False)"

text \<open>\<open>ConversionThread.matches_filter(self, filename)\<close> is defined after the thread's record.\<close>

section \<open>The progress estimator\<close>

text \<open>
  A Python float is an IEEE 754 binary64 number. A finite float is modelled by the
  rational number it denotes; \<open>None\<close> stands for a value that makes \<open>update\<close> raise: an
  infinity or a NaN (on which \<open>int\<close> raises), or the \<open>OverflowError\<close> of converting an
  int beyond the range of floats.
\<close>

type_synonym pyfloat = "rat option"

text \<open>
  Rounding to the nearest float, ties to the even significand: \<open>binade q\<close> is the
  exponent \<open>E\<close> with \<open>2 ^ E \<le> q < 2 ^ (E + 1)\<close> for a positive \<open>q\<close>; the significand has
  53 bits, so the spacing of the floats around \<open>q\<close> is \<open>2 ^ (E - 52)\<close>, and not less than
  \<open>2 ^ (- 1074)\<close>, the spacing of the subnormal numbers; a result of \<open>2 ^ 1024\<close> or more
  is beyond the largest finite float.
\<close>

definition pow2 :: "int \<Rightarrow> rat" where
  "pow2 e = (if 0 \<le> e then 2 ^ nat e else 1 / 2 ^ nat (- e))"

function bit_length :: "int \<Rightarrow> nat" where
  "bit_length n = (if n \<le> 0 then 0 else Suc (bit_length (n div 2)))"
  by pat_completeness auto
termination
  by (relation "measure nat") auto

declare bit_length.simps [simp del]

definition binade :: "rat \<Rightarrow> int" where
  "binade q =
     (if 1 \<le> q then int (bit_length \<lfloor>q\<rfloor>) - 1
      else (let l = int (bit_length \<lfloor>1 / q\<rfloor>)
            in if q * pow2 (l - 1) = 1 then 1 - l else - l))"

definition round_half_even :: "rat \<Rightarrow> int" where
  "round_half_even x =
     (let f = \<lfloor>x\<rfloor>; d = x - of_int f
      in if d < 1 / 2 then f else if 1 / 2 < d then f + 1 else if even f then f else f + 1)"

definition round_double :: "rat \<Rightarrow> pyfloat" where
  "round_double q =
     (if q = 0 then Some 0
      else (let a = \<bar>q\<bar>;
                e = max (binade a - 52) (- 1074);
                m = round_half_even (a / pow2 e);
                v = of_int m * pow2 e
            in if 2 ^ 1024 \<le> v then None else Some (if q < 0 then - v else v)))"

text \<open>
  The arithmetic of floats rounds the exact result; an int operand is converted to a
  float first (\<open>float_of_int\<close>).
\<close>

definition float_sub :: "pyfloat \<Rightarrow> pyfloat \<Rightarrow> pyfloat" where
  "float_sub x y = (case (x, y) of (Some a, Some b) \<Rightarrow> round_double (a - b) | _ \<Rightarrow> None)"

definition float_add :: "pyfloat \<Rightarrow> pyfloat \<Rightarrow> pyfloat" where
  "float_add x y = (case (x, y) of (Some a, Some b) \<Rightarrow> round_double (a + b) | _ \<Rightarrow> None)"

definition float_mul :: "pyfloat \<Rightarrow> pyfloat \<Rightarrow> pyfloat" where
  "float_mul x y = (case (x, y) of (Some a, Some b) \<Rightarrow> round_double (a * b) | _ \<Rightarrow> None)"

definition float_div :: "pyfloat \<Rightarrow> pyfloat \<Rightarrow> pyfloat" where
  "float_div x y =
     (case (x, y) of
        (Some a, Some b) \<Rightarrow> if b = 0 then None else round_double (a / b)
      | _ \<Rightarrow> None)"

definition float_of_int :: "int \<Rightarrow> pyfloat" where
  "float_of_int n = round_double (of_int n)"

text \<open>
  \<open>x % y\<close> and \<open>x // y\<close> on floats, as CPython computes them (\<open>float_rem\<close> and
  \<open>float_floor_div\<close> of floatobject.c): from C's \<open>fmod\<close>, which is exact and has the sign of
  its first argument, with a remainder of the wrong sign moved by one divisor and the
  quotient snapped to the nearest integer. \<open>int(x)\<close> truncates toward zero.
\<close>

definition trunc :: "rat \<Rightarrow> int" where
  "trunc x = (if 0 \<le> x then \<lfloor>x\<rfloor> else \<lceil>x\<rceil>)"

definition c_fmod :: "rat \<Rightarrow> rat \<Rightarrow> rat" where
  "c_fmod vx wx = vx - wx * of_int (trunc (vx / wx))"

definition float_rem :: "pyfloat \<Rightarrow> rat \<Rightarrow> pyfloat" where
  "float_rem x wx =
     (case x of
        None \<Rightarrow> None
      | Some vx \<Rightarrow>
          (let rem = c_fmod vx wx
           in if rem \<noteq> 0 \<and> ((wx < 0) \<noteq> (rem < 0)) then float_add (Some rem) (Some wx)
              else Some rem))"

definition float_floor_div :: "pyfloat \<Rightarrow> rat \<Rightarrow> pyfloat" where
  "float_floor_div x wx =
     (case x of
        None \<Rightarrow> None
      | Some vx \<Rightarrow>
          (let rem = c_fmod vx wx;
               div0 = float_div (float_sub (Some vx) (Some rem)) (Some wx);
               div1 = (if rem \<noteq> 0 \<and> ((wx < 0) \<noteq> (rem < 0)) then float_sub div0 (Some 1)
                       else div0)
           in case div1 of
                None \<Rightarrow> None
              | Some d \<Rightarrow>
                  if d \<noteq> 0 then
                    (let floordiv = of_int \<lfloor>d\<rfloor>
                     in case float_sub (Some d) (Some floordiv) of
                          None \<Rightarrow> None
                        | Some r \<Rightarrow>
                            if 1 / 2 < r then float_add (Some floordiv) (Some 1)
                            else Some floordiv)
                  else Some 0))"

definition py_int :: "pyfloat \<Rightarrow> int option" where
  "py_int x = map_option trunc x"


text \<open>
  The estimator. The clock reading is an argument of \<open>start\<close> and \<open>update\<close>;
  \<open>start_time\<close> is \<open>None\<close> until \<open>start\<close> is called.
\<close>

record ProgressEstimator =
  start_time :: "rat option"
  total_files :: int
  completed_files :: int

definition ProgressEstimator_init :: ProgressEstimator where
  "ProgressEstimator_init = \<lparr>start_time = None, total_files = 0, completed_files = 0\<rparr>"

definition start :: "rat \<Rightarrow> int \<Rightarrow> ProgressEstimator \<Rightarrow> ProgressEstimator" where
  "start now n_files pe = pe\<lparr>start_time := Some now, total_files := n_files, completed_files := 0\<rparr>"

text \<open>The decimal rendering of an integer in an f-string.\<close>

fun digits :: "nat \<Rightarrow> pystr" where
  "digits n = (if n < 10 then [48 + n] else digits (n div 10) @ [48 + n mod 10])"

declare digits.simps [simp del]

definition str_int :: "int \<Rightarrow> pystr" where
  "str_int i = (if i < 0 then 45 # digits (nat (- i)) else digits (nat i))"

text \<open>
  The texts of the estimator: \<open>msg_calculating\<close> is the indeterminate text (U+8BA1 U+7B97
  U+4E2D and three dots), \<open>txt_remaining\<close> the prefix of every estimate, and
  \<open>txt_hours\<close>, \<open>txt_minutes\<close>, \<open>txt_seconds\<close> the unit words.
\<close>

definition msg_calculating :: pystr where
  "msg_calculating = [35745, 31639, 20013, 46, 46, 46]"

definition txt_remaining :: pystr where
  "txt_remaining = [39044, 35745, 21097, 20313, 26102, 38388, 58, 32]"

definition txt_hours :: pystr where
  "txt_hours = [23567, 26102]"

definition txt_minutes :: pystr where
  "txt_minutes = [20998, 38047]"

definition txt_seconds :: pystr where
  "txt_seconds = [31186]"

text \<open>
  \<open>update\<close>, given the reading of \<open>time.time()\<close>: the text returned, or \<open>None\<close> when the
  call raises, and the estimator afterwards.
\<close>

definition update :: "rat \<Rightarrow> ProgressEstimator \<Rightarrow> pystr option \<times> ProgressEstimator" where
  "update now pe0 =
     (let pe = pe0\<lparr>completed_files := completed_files pe0 + 1\<rparr> in
      case start_time pe of
        None \<Rightarrow> (Some msg_calculating, pe)
      | Some t \<Rightarrow>
          if completed_files pe > 0 \<and> t \<noteq> 0 then
            (let elapsed = float_sub (Some now) (Some t) in
             if completed_files pe > 0 then
               (let avg_time_per_file = float_div elapsed (float_of_int (completed_files pe));
                    remaining_files = total_files pe - completed_files pe;
                    estimated_time_remaining =
                      float_mul (float_of_int remaining_files) avg_time_per_file;
                    hours = py_int (float_floor_div estimated_time_remaining 3600);
                    minutes =
                      py_int (float_floor_div (float_rem estimated_time_remaining 3600) 60);
                    seconds = py_int (float_rem estimated_time_remaining 60)
                in case (hours, minutes, seconds) of
                     (Some h, Some m, Some s) \<Rightarrow>
                       if h > 0 then
                         (Some (txt_remaining @ str_int h @ txt_hours @ str_int m @ txt_minutes),
                          pe)
                       else if m > 0 then
                         (Some (txt_remaining @ str_int m @ txt_minutes @ str_int s
                                @ txt_seconds), pe)
                       else (Some (txt_remaining @ str_int s @ txt_seconds), pe)
                   | _ \<Rightarrow> (None, pe))
             else (Some msg_calculating, pe))
          else (Some msg_calculating, pe))"

section \<open>The conversion thread\<close>

text \<open>
  The signals of the thread, the results of \<open>subprocess.run\<close> (a completed process with
  return code, standard output and standard error; \<open>TimeoutExpired\<close>; any other exception,
  with its text), and the events the thread causes, in order: a signal emitted, the source
  file opened, the staging file created with its content, the external command started
  with its timeout, the staging file unlinked.
\<close>

datatype signal =
  Progress_signal pystr
| Progress_update nat nat
| Finished_signal
| Error_signal pystr

datatype proc_result =
  Completed int pystr pystr
| Timeout_expired
| Raised pystr

datatype event =
  Emit signal
| Open_read pystr
| Temp_create pystr pystr
| Subprocess_run "pystr list" nat
| Unlink pystr

text \<open>
  The fields of \<open>ConversionThread\<close>, with the events so far and the staging files that
  exist.
\<close>

record ConversionThread =
  folder_path :: pystr
  voice :: pystr
  file_filter :: pystr
  is_running :: bool
  total_files :: nat
  processed_files :: nat
  trace :: "event list"
  tmp_files :: "pystr list"

definition ConversionThread_init :: "pystr \<Rightarrow> pystr \<Rightarrow> pystr \<Rightarrow> ConversionThread" where
  "ConversionThread_init folder v flt =
     \<lparr>folder_path = folder, voice = v, file_filter = flt, is_running = True,
      total_files = 0, processed_files = 0, trace = [], tmp_files = []\<rparr>"

definition matches_filter :: "ConversionThread \<Rightarrow> pystr \<Rightarrow> bool" where
  "matches_filter self filename =
     (if file_filter self = str ''*.*'' then True
      else if py_in (str ''*.'') (file_filter self) then
        (let filters = map py_strip (py_split (file_filter self) (of_char CHR '';''))
         in filter_loop filters filename)
      else False)"

definition stop :: "ConversionThread \<Rightarrow> ConversionThread" where
  "stop self = self\<lparr>is_running := False\<rparr>"

definition emit :: "signal \<Rightarrow> ConversionThread \<Rightarrow> ConversionThread" where
  "emit s self = self\<lparr>trace := trace self @ [Emit s]\<rparr>"

definition effect :: "event \<Rightarrow> ConversionThread \<Rightarrow> ConversionThread" where
  "effect e self = self\<lparr>trace := trace self @ [e]\<rparr>"

text \<open>
  The texts of the log lines, each an f-string of \<open>run\<close>. The first character tells the
  kinds apart: U+2713 (check mark) for a conversion, U+26A0 (warning sign) for a skipped
  empty file, U+2717 (ballot x) for every failure; after it come the words for
  "converted", "skipping empty file", "conversion failed", "conversion timed out",
  "error" and "reading the file failed".
\<close>

definition msg_checking :: pystr where
  "msg_checking = [27491, 22312, 26816, 26597, 24182, 26356, 26032, 32] @ str ''edge-tts...''"

definition msg_converting :: "pystr \<Rightarrow> pystr" where
  "msg_converting fn = [27491, 22312, 36716, 25442, 58, 32] @ fn"

definition msg_skipped :: "pystr \<Rightarrow> pystr" where
  "msg_skipped fn = [9888, 32, 36339, 36807, 31354, 25991, 20214, 58, 32] @ fn"

definition msg_converted :: "pystr \<Rightarrow> pystr \<Rightarrow> pystr" where
  "msg_converted fn out = [10003, 32, 24050, 36716, 25442, 58, 32] @ fn @ str '' -> '' @ out"

definition txt_unknown_error :: pystr where
  "txt_unknown_error = [26410, 30693, 38169, 35823]"

definition msg_failed :: "pystr \<Rightarrow> pystr \<Rightarrow> pystr" where
  "msg_failed fn excerpt =
     [10007, 32, 36716, 25442, 22833, 36133, 58, 32] @ fn @ str '' - '' @ excerpt"

definition msg_timeout :: "pystr \<Rightarrow> pystr" where
  "msg_timeout fn = [10007, 32, 36716, 25442, 36229, 26102, 58, 32] @ fn"

definition msg_error :: "pystr \<Rightarrow> pystr \<Rightarrow> pystr" where
  "msg_error fn e = [10007, 32, 38169, 35823, 58, 32] @ fn @ str '' - '' @ e"

definition msg_read_failed :: "pystr \<Rightarrow> pystr \<Rightarrow> pystr" where
  "msg_read_failed fn e =
     [10007, 32, 35835, 21462, 25991, 20214, 22833, 36133, 58, 32] @ fn @ str '' - '' @ e"

definition msg_program_error :: "pystr \<Rightarrow> pystr" where
  "msg_program_error e = [31243, 24207, 38169, 35823, 58, 32] @ e"

text \<open>
  \<open>ensure_edge_tts_updated\<close>, given what the upgrade subprocess did: its five return
  values are "already the latest version", "updated", "the update failed" with the first
  100 characters of standard error, "the update timed out" and "the check raised" with
  the exception's text.
\<close>

definition ensure_edge_tts_updated :: "proc_result \<Rightarrow> pystr" where
  "ensure_edge_tts_updated r =
     (case r of
        Completed returncode out err \<Rightarrow>
          if returncode = 0 then
            (if py_in (str ''Requirement already satisfied'') out
             then str ''edge-tts '' @ [24050, 26159, 26368, 26032, 29256, 26412, 12290]
             else str ''edge-tts '' @ [24050, 25104, 21151, 26356, 26032, 12290])
          else [23581, 35797, 26356, 26032, 32] @ str ''edge-tts '' @
               [26102, 20986, 38169, 65292, 20294, 19981, 24433, 21709, 21518, 32493, 36716,
                25442, 58, 32] @ take 100 err
      | Timeout_expired \<Rightarrow>
          [26356, 26032, 32] @ str ''edge-tts '' @
          [36229, 26102, 65292, 20294, 19981, 24433, 21709, 21518, 32493, 36716, 25442, 12290]
      | Raised e \<Rightarrow>
          [26816, 26597, 26356, 26032, 26102, 21457, 29983, 38169, 35823, 65292, 20294, 19981,
           24433, 21709, 21518, 32493, 36716, 25442, 58, 32] @ e)"

subsection \<open>What the thread meets outside itself\<close>

text \<open>
  For one file name of the traversal: what reading the file gives (\<open>Inl\<close> the text of the
  exception, \<open>Inr\<close> the file's text), what creating and writing the staging file gives
  (\<open>Inl\<close> the text of the exception, \<open>Inr\<close> the staging file's name), what the external
  command does, whether \<open>os.unlink\<close> raises, and whether the window calls \<open>stop\<close> while
  the thread is at this file name.
\<close>

record file_env =
  read_result :: "pystr + pystr"
  tmp_result :: "pystr + pystr"
  run_result :: proc_result
  unlink_raises :: bool
  stop_called :: bool

text \<open>
  One traversal by \<open>os.walk\<close>: a generator that yields \<open>(dirpath, dirnames, filenames)\<close>
  and then ends, or raises.
\<close>

datatype walk =
  Walk_done
| Walk_raise pystr
| Walk_yield pystr "pystr list" "pystr list" walk

text \<open>
  A run meets: the upgrade subprocess, the two traversals of the folder, the files (by
  path), and possibly a call of \<open>stop\<close> before the conversion loop begins.
\<close>

record environment =
  pip_result :: proc_result
  first_walk :: walk
  second_walk :: walk
  files :: "pystr \<Rightarrow> file_env"
  stop_before_loop :: bool

subsection \<open>One matched file\<close>

text \<open>The output path of a file, as \<open>run\<close> computes it.\<close>

definition mp3Path :: "pystr \<Rightarrow> pystr \<Rightarrow> pystr" where
  "mp3Path dirpath fn = os_path_join dirpath (py_replace fn (str ''.txt'') (str ''.mp3''))"

text \<open>\<open>self.processed_files += 1\<close> followed by the emission of \<open>progress_update\<close>.\<close>

definition count_processed :: "ConversionThread \<Rightarrow> ConversionThread" where
  "count_processed self =
     (let self = self\<lparr>processed_files := processed_files self + 1\<rparr>
      in emit (Progress_update (processed_files self) (total_files self)) self)"

text \<open>\<open>try: os.unlink(tmp_path) / except: pass\<close>.\<close>

definition unlink_tmp :: "file_env \<Rightarrow> pystr \<Rightarrow> ConversionThread \<Rightarrow> ConversionThread" where
  "unlink_tmp fe tmp_path self =
     (let self = effect (Unlink tmp_path) self
      in if unlink_raises fe then self
         else self\<lparr>tmp_files := removeAll tmp_path (tmp_files self)\<rparr>)"

text \<open>The body of the inner loop for a file name that matches the filter.\<close>

definition convert_file ::
  "file_env \<Rightarrow> pystr \<Rightarrow> pystr \<Rightarrow> ConversionThread \<Rightarrow> ConversionThread" where
  "convert_file fe dirpath fn self0 =
     (let fpath = os_path_join dirpath fn;
          self1 = emit (Progress_signal (msg_converting fn)) self0;
          self2 = effect (Open_read fpath) self1
      in case read_result fe of
           Inl e \<Rightarrow> count_processed (emit (Progress_signal (msg_read_failed fn e)) self2)
         | Inr text \<Rightarrow>
             (let content = py_strip text in
              if content = [] then
                count_processed (emit (Progress_signal (msg_skipped fn)) self2)
              else
                (case tmp_result fe of
                   Inl e \<Rightarrow> count_processed (emit (Progress_signal (msg_read_failed fn e)) self2)
                 | Inr tmp_path \<Rightarrow>
                     (let self3 = (effect (Temp_create tmp_path content) self2)
                                    \<lparr>tmp_files := tmp_path # tmp_files self2\<rparr>;
                          cmd = [str ''edge-tts'', str ''--voice'', voice self3,
                                 str ''--file'', tmp_path,
                                 str ''--write-media'', mp3Path dirpath fn];
                          self4 = effect (Subprocess_run cmd 60) self3
                      in case run_result fe of
                           Completed returncode out err \<Rightarrow>
                             (let self5 = unlink_tmp fe tmp_path self4 in
                              if returncode = 0 then
                                count_processed (emit (Progress_signal (msg_converted fn
                                  (py_replace fn (str ''.txt'') (str ''.mp3'')))) self5)
                              else
                                (let error_msg = py_or err (py_or out txt_unknown_error) in
                                 count_processed (emit (Progress_signal
                                   (msg_failed fn (take 100 error_msg))) self5)))
                         | Timeout_expired \<Rightarrow>
                             count_processed (emit (Progress_signal (msg_timeout fn)) self4)
                         | Raised e \<Rightarrow>
                             count_processed (emit (Progress_signal (msg_error fn e)) self4)))))"

subsection \<open>The loops\<close>

text \<open>The counting pass.\<close>

fun count_files :: "pystr list \<Rightarrow> ConversionThread \<Rightarrow> ConversionThread" where
  "count_files [] self = self"
| "count_files (fn # filenames) self =
     count_files filenames
       (if matches_filter self fn then self\<lparr>total_files := total_files self + 1\<rparr> else self)"

fun count_walk :: "walk \<Rightarrow> ConversionThread \<Rightarrow> pystr option \<times> ConversionThread" where
  "count_walk Walk_done self = (None, self)"
| "count_walk (Walk_raise e) self = (Some e, self)"
| "count_walk (Walk_yield dirpath dirnames filenames rest) self =
     count_walk rest (count_files filenames self)"

text \<open>
  The conversion pass. The inner loop reads the flag before each file name and leaves the
  loop when it is cleared; a call of \<open>stop\<close> that arrives while the thread is at a file
  name takes effect after that name has been handled. The outer loop asks the generator
  for the next directory, which may raise, and then reads the flag.
\<close>

fun files_loop ::
  "(pystr \<Rightarrow> file_env) \<Rightarrow> pystr \<Rightarrow> pystr list \<Rightarrow> ConversionThread \<Rightarrow> ConversionThread" where
  "files_loop fenv dirpath [] self = self"
| "files_loop fenv dirpath (fn # filenames) self =
     (if \<not> is_running self then self
      else
        (let fe = fenv (os_path_join dirpath fn);
             self1 = (if matches_filter self fn then convert_file fe dirpath fn self else self);
             self2 = (if stop_called fe then stop self1 else self1)
         in files_loop fenv dirpath filenames self2))"

fun convert_walk ::
  "(pystr \<Rightarrow> file_env) \<Rightarrow> walk \<Rightarrow> ConversionThread \<Rightarrow> pystr option \<times> ConversionThread" where
  "convert_walk fenv Walk_done self = (None, self)"
| "convert_walk fenv (Walk_raise e) self = (Some e, self)"
| "convert_walk fenv (Walk_yield dirpath dirnames filenames rest) self =
     (if \<not> is_running self then (None, self)
      else convert_walk fenv rest (files_loop fenv dirpath filenames self))"

subsection \<open>\<open>run\<close>\<close>

text \<open>
  The body of the \<open>try\<close> block: \<open>Some e\<close> is an exception that reaches the handler of
  \<open>run\<close>, with the state when it was raised.
\<close>

definition run_body :: "environment \<Rightarrow> ConversionThread \<Rightarrow> pystr option \<times> ConversionThread" where
  "run_body env self0 =
     (let self1 = emit (Progress_signal msg_checking) self0;
          update_msg = ensure_edge_tts_updated (pip_result env);
          self2 = emit (Progress_signal update_msg) self1;
          self3 = self2\<lparr>total_files := 0\<rparr>
      in case count_walk (first_walk env) self3 of
           (Some e, self4) \<Rightarrow> (Some e, self4)
         | (None, self4) \<Rightarrow>
             (let self5 = self4\<lparr>processed_files := 0\<rparr>;
                  self6 = emit (Progress_update 0 (total_files self5)) self5;
                  self7 = (if stop_before_loop env then stop self6 else self6)
              in convert_walk (files env) (second_walk env) self7))"

text \<open>\<open>run\<close> with its \<open>except Exception\<close> and \<open>finally\<close> clauses.\<close>

definition run :: "environment \<Rightarrow> ConversionThread \<Rightarrow> ConversionThread" where
  "run env self =
     (case run_body env self of
        (Some e, self1) \<Rightarrow>
          emit Finished_signal (emit (Error_signal (msg_program_error e)) self1)
      | (None, self1) \<Rightarrow> emit Finished_signal self1)"

section \<open>Notions of the specification\<close>

text \<open>
  The filter expression \<open>*.e1;*.e2;...\<close> built from a list of extensions, and the
  extensions for which that reading is unambiguous: no semicolon, no further \<open>*.\<close>
  inside, no whitespace at the end.
\<close>

definition pattern_of :: "pystr \<Rightarrow> pystr" where
  "pattern_of e = str ''*.'' @ e"

fun filter_expression :: "pystr list \<Rightarrow> pystr" where
  "filter_expression [] = []"
| "filter_expression [e] = pattern_of e"
| "filter_expression (e # es) = pattern_of e @ str '';'' @ filter_expression es"

definition plain_ext :: "pystr \<Rightarrow> bool" where
  "plain_ext e \<longleftrightarrow>
     of_char CHR '';'' \<notin> set e \<and> \<not> py_in (str ''*.'') e \<and> (e = [] \<or> \<not> isspace (last e))"

text \<open>A traversal that yields the given directories and ends without raising.\<close>

fun walk_of_list :: "(pystr \<times> pystr list \<times> pystr list) list \<Rightarrow> walk" where
  "walk_of_list [] = Walk_done"
| "walk_of_list ((dirpath, dirnames, filenames) # rest) =
     Walk_yield dirpath dirnames filenames (walk_of_list rest)"

text \<open>The paths of the files of a tree that match the filter, in traversal order.\<close>

fun matching_paths :: "pystr \<Rightarrow> (pystr \<times> pystr list \<times> pystr list) list \<Rightarrow> pystr list" where
  "matching_paths flt [] = []"
| "matching_paths flt ((dirpath, dirnames, filenames) # rest) =
     map (os_path_join dirpath) (filter (\<lambda>fn. Window_matches_filter fn flt) filenames)
     @ matching_paths flt rest"

text \<open>
  Readings of a trace: the files opened, the progress counters emitted, the external
  commands started, and the signals that end a run.
\<close>

fun opened_files :: "event list \<Rightarrow> pystr list" where
  "opened_files [] = []"
| "opened_files (Open_read p # es) = p # opened_files es"
| "opened_files (e # es) = opened_files es"

fun progress_updates :: "event list \<Rightarrow> (nat \<times> nat) list" where
  "progress_updates [] = []"
| "progress_updates (Emit (Progress_update k n) # es) = (k, n) # progress_updates es"
| "progress_updates (e # es) = progress_updates es"

fun invocations :: "event list \<Rightarrow> pystr list list" where
  "invocations [] = []"
| "invocations (Subprocess_run cmd t # es) = cmd # invocations es"
| "invocations (e # es) = invocations es"

fun end_signals :: "event list \<Rightarrow> signal list" where
  "end_signals [] = []"
| "end_signals (Emit Finished_signal # es) = Finished_signal # end_signals es"
| "end_signals (Emit (Error_signal m) # es) = Error_signal m # end_signals es"
| "end_signals (e # es) = end_signals es"

text \<open>
  \<open>os.path.basename\<close> (POSIX): what follows the last separator of a path. The log lines
  of a trace.
\<close>

definition os_path_basename :: "pystr \<Rightarrow> pystr" where
  "os_path_basename p = rev (takeWhile (\<lambda>c. c \<noteq> of_char CHR ''/'') (rev p))"

fun progress_lines :: "event list \<Rightarrow> pystr list" where
  "progress_lines [] = []"
| "progress_lines (Emit (Progress_signal m) # es) = m # progress_lines es"
| "progress_lines (e # es) = progress_lines es"

text \<open>
  What is staged for a file (the staging file's name and the stripped text), if anything;
  the external command started for a file, once, when something is staged; and the
  commands expected of a run over a tree, in traversal order.
\<close>

definition staging :: "file_env \<Rightarrow> (pystr \<times> pystr) option" where
  "staging fe =
     (case read_result fe of
        Inl e \<Rightarrow> None
      | Inr text \<Rightarrow>
          if py_strip text = [] then None
          else (case tmp_result fe of
                  Inl e \<Rightarrow> None
                | Inr tmp_path \<Rightarrow> Some (tmp_path, py_strip text)))"

definition file_invocations :: "file_env \<Rightarrow> pystr \<Rightarrow> pystr \<Rightarrow> pystr \<Rightarrow> pystr list list" where
  "file_invocations fe v dirpath fn =
     (case staging fe of
        None \<Rightarrow> []
      | Some (tmp_path, content) \<Rightarrow>
          [[str ''edge-tts'', str ''--voice'', v, str ''--file'', tmp_path,
            str ''--write-media'', mp3Path dirpath fn]])"

fun expected_invocations ::
  "(pystr \<Rightarrow> file_env) \<Rightarrow> pystr \<Rightarrow> pystr \<Rightarrow> (pystr \<times> pystr list \<times> pystr list) list
   \<Rightarrow> pystr list list" where
  "expected_invocations fenv v flt [] = []"
| "expected_invocations fenv v flt ((dirpath, dirnames, filenames) # rest) =
     concat (map (\<lambda>fn. file_invocations (fenv (os_path_join dirpath fn)) v dirpath fn)
                 (filter (\<lambda>fn. Window_matches_filter fn flt) filenames))
     @ expected_invocations fenv v flt rest"

text \<open>
  The estimate \<open>(T - c) * (e / c)\<close> with \<open>e = now - t\<close>, computed in float arithmetic,
  and the text of an estimate of \<open>h\<close> hours, \<open>m\<close> minutes and \<open>s\<close> seconds: the highest
  positive unit and the next one.
\<close>

definition estimate :: "int \<Rightarrow> int \<Rightarrow> rat \<Rightarrow> rat \<Rightarrow> pyfloat" where
  "estimate total_count completed now t =
     float_mul (float_of_int (total_count - completed))
       (float_div (float_sub (Some now) (Some t)) (float_of_int completed))"

definition render_estimate :: "int \<Rightarrow> int \<Rightarrow> int \<Rightarrow> pystr" where
  "render_estimate h m s =
     txt_remaining @
     (if 0 < h then str_int h @ txt_hours @ str_int m @ txt_minutes
      else if 0 < m then str_int m @ txt_minutes @ str_int s @ txt_seconds
      else str_int s @ txt_seconds)"

text \<open>A thread and a file to evaluate the definitions on.\<close>

definition example_thread :: "pystr \<Rightarrow> ConversionThread" where
  "example_thread flt = ConversionThread_init (str ''d'') (str ''zh-CN-YunjianNeural'') flt"

definition example_file :: "pystr \<Rightarrow> proc_result \<Rightarrow> file_env" where
  "example_file text r =
     \<lparr>read_result = Inr text, tmp_result = Inr (str ''/tmp/tmpk3v9.txt''), run_result = r,
      unlink_raises = False, stop_called = False\<rparr>"

text \<open>
  The tree of the specification's example: a directory with \<open>a.txt\<close> (not empty),
  \<open>b.txt\<close> (empty) and \<open>c.md\<close>; a run over it that is not cancelled; and the same files
  with a call of \<open>stop\<close> while the thread is at \<open>a.txt\<close>.
\<close>

definition example_tree :: "(pystr \<times> pystr list \<times> pystr list) list" where
  "example_tree = [(str ''d'', [], [str ''a.txt'', str ''b.txt'', str ''c.md''])]"

definition example_files :: "pystr \<Rightarrow> file_env" where
  "example_files p =
     example_file (if p = str ''d/b.txt'' then [] else str ''hello'') (Completed 0 [] [])"

definition example_env :: environment where
  "example_env =
     \<lparr>pip_result = Timeout_expired, first_walk = walk_of_list example_tree,
      second_walk = walk_of_list example_tree, files = example_files,
      stop_before_loop = False\<rparr>"

definition example_files_stop :: "pystr \<Rightarrow> file_env" where
  "example_files_stop p = (example_files p)\<lparr>stop_called := (p = str ''d/a.txt'')\<rparr>"

section \<open>The filter predicate: properties\<close>

lemma py_in_prefix: "prefix sub s \<Longrightarrow> py_in sub s"
  by (cases s) auto

lemma py_replace_absent:
  "old \<noteq> [] \<Longrightarrow> \<not> py_in old s \<Longrightarrow> py_replace s old new = s"
  by (induction s) auto

lemma py_replace_pattern:
  "\<not> py_in (str ''*.'') e \<Longrightarrow> py_replace (pattern_of e) (str ''*.'') (str ''.'') = str ''.'' @ e"
  by (simp add: pattern_of_def str_def py_replace_absent)

lemma py_split_nosep: "sep \<notin> set s \<Longrightarrow> py_split s sep = [s]"
  by (induction s) auto

lemma py_split_append:
  "sep \<notin> set s \<Longrightarrow> py_split (s @ sep # t) sep = s # py_split t sep"
  by (induction s) auto

lemma pattern_nosep: "of_char CHR '';'' \<notin> set e \<Longrightarrow> of_char CHR '';'' \<notin> set (pattern_of e)"
  by (simp add: pattern_of_def str_def)

lemma py_split_filter_expression:
  "es \<noteq> [] \<Longrightarrow> \<forall>e\<in>set es. of_char CHR '';'' \<notin> set e \<Longrightarrow>
   py_split (filter_expression es) (of_char CHR '';'') = map pattern_of es"
proof (induction es rule: filter_expression.induct)
  case 1
  then show ?case by simp
next
  case (2 e)
  then show ?case using py_split_nosep[OF pattern_nosep, of e] by simp
next
  case (3 e v va)
  have "py_split (pattern_of e @ of_char CHR '';'' # filter_expression (v # va)) (of_char CHR '';'')
        = pattern_of e # py_split (filter_expression (v # va)) (of_char CHR '';'')"
    using 3 by (intro py_split_append pattern_nosep) simp
  then show ?case using 3 by (simp add: str_def)
qed

lemma py_strip_pattern:
  assumes "e = [] \<or> \<not> isspace (last e)"
  shows "py_strip (pattern_of e) = pattern_of e"
proof -
  have h: "\<not> isspace 42" "\<not> isspace 46" by (simp_all add: isspace_def)
  have l: "\<not> isspace (last (pattern_of e))" using assms h by (auto simp: pattern_of_def str_def)
  have ne: "pattern_of e \<noteq> []" by (simp add: pattern_of_def str_def)
  have "dropWhile isspace (pattern_of e) = pattern_of e" using h by (simp add: pattern_of_def str_def)
  moreover have "dropWhile isspace (rev (pattern_of e)) = rev (pattern_of e)"
    using l ne by (cases "pattern_of e" rule: rev_cases) auto
  ultimately show ?thesis by (simp add: py_strip_def)
qed

lemma filter_loop_patterns:
  "\<forall>e\<in>set es. \<not> py_in (str ''*.'') e \<Longrightarrow>
   filter_loop (map pattern_of es) fn \<longleftrightarrow> (\<exists>e\<in>set es. suffix (str ''.'' @ e) fn)"
proof (induction es)
  case Nil
  then show ?case by simp
next
  case (Cons e es)
  have "py_in (str ''*.'') (pattern_of e)" by (rule py_in_prefix) (simp add: pattern_of_def)
  then show ?case using Cons
    by (simp add: py_replace_pattern py_endswith_def suffix_to_prefix Let_def)
qed

lemma filter_expression_wildcard:
  "\<forall>e\<in>set es. of_char CHR '';'' \<notin> set e \<Longrightarrow> filter_expression es = str ''*.*'' \<Longrightarrow> es = [str ''*'']"
proof (induction es rule: filter_expression.induct)
  case 1
  then show ?case by (simp add: str_def)
next
  case (2 e)
  then show ?case by (simp add: str_def pattern_of_def)
next
  case (3 e v va)
  from 3(3) have "e @ str '';'' @ filter_expression (v # va) = str ''*''" by (simp add: str_def pattern_of_def)
  then show ?case using 3(2) by (cases e) (auto simp: str_def)
qed

lemma matches_filter_Window:
  "matches_filter self fn = Window_matches_filter fn (file_filter self)"
  by (simp add: matches_filter_def Window_matches_filter_def)

lemma Window_matches_filter_expression:
  assumes "es \<noteq> []" and "es \<noteq> [str ''*'']" and "\<forall>e\<in>set es. plain_ext e"
  shows "Window_matches_filter fn (filter_expression es) \<longleftrightarrow> (\<exists>e\<in>set es. suffix (str ''.'' @ e) fn)"
proof -
  have sep: "\<forall>e\<in>set es. of_char CHR '';'' \<notin> set e" using assms(3) by (simp add: plain_ext_def)
  have ne: "filter_expression es \<noteq> str ''*.*''" using filter_expression_wildcard[OF sep] assms(2) by blast
  have "prefix (str ''*.'') (filter_expression es)" using assms(1)
    by (cases es rule: filter_expression.cases) (auto simp: pattern_of_def)
  then have c: "py_in (str ''*.'') (filter_expression es)" by (rule py_in_prefix)
  have "map py_strip (map pattern_of es) = map pattern_of es"
    using assms(3) by (simp add: plain_ext_def py_strip_pattern)
  then have "map py_strip (py_split (filter_expression es) (of_char CHR '';'')) = map pattern_of es"
    using py_split_filter_expression[OF assms(1) sep] by simp
  moreover have "filter_loop (map pattern_of es) fn \<longleftrightarrow> (\<exists>e\<in>set es. suffix (str ''.'' @ e) fn)"
    using assms(3) by (intro filter_loop_patterns) (simp add: plain_ext_def)
  ultimately show ?thesis using ne c by (simp add: Window_matches_filter_def)
qed

text \<open>
  C2. For a filter expression \<open>*.e1;*.e2;...\<close> of one or more plain extensions (other than
  the single wildcard \<open>*.*\<close>), both filter predicates accept a file name exactly when it
  ends with \<open>.e\<close> for one of the extensions \<open>e\<close>, compared code point by code point and so
  case-sensitively; and with the filter \<open>*.*\<close> both accept every file name.
\<close>
theorem matches_filter_exact:
  assumes "es \<noteq> []" and "es \<noteq> [str ''*'']" and "\<forall>e\<in>set es. plain_ext e"
    and "file_filter self = filter_expression es" and "file_filter all = str ''*.*''"
  shows "(matches_filter self fn \<longleftrightarrow> (\<exists>e\<in>set es. suffix (str ''.'' @ e) fn))
       \<and> (Window_matches_filter fn (filter_expression es) \<longleftrightarrow> (\<exists>e\<in>set es. suffix (str ''.'' @ e) fn))
       \<and> matches_filter all fn \<and> Window_matches_filter fn (str ''*.*'')"
  using Window_matches_filter_expression[OF assms(1-3), of fn] assms(4,5)
  by (simp add: matches_filter_Window) (simp add: Window_matches_filter_def)

theorem matches_filter_exact_witness:
  "matches_filter (ConversionThread_init [] [] (str ''*.txt;*.md'')) (str ''notes.md'')
   \<and> \<not> matches_filter (ConversionThread_init [] [] (str ''*.txt;*.md'')) (str ''a.TXT'')
   \<and> \<not> Window_matches_filter (str ''a.txt.bak'') (str ''*.txt;*.md'')
   \<and> matches_filter (ConversionThread_init [] [] (str ''*.*'')) (str ''Makefile'')"
proof -
  let ?es = "[str ''txt'', str ''md'']"
  let ?self = "ConversionThread_init [] [] (str ''*.txt;*.md'')"
  let ?all = "ConversionThread_init [] [] (str ''*.*'')"
  have 1: "?es \<noteq> []" by simp
  have 2: "?es \<noteq> [str ''*'']" by simp
  have 3: "\<forall>e\<in>set ?es. plain_ext e" by (simp add: plain_ext_def str_def isspace_def)
  have 4: "file_filter ?self = filter_expression ?es"
    by (simp add: ConversionThread_init_def pattern_of_def str_def)
  have 5: "file_filter ?all = str ''*.*''" by (simp add: ConversionThread_init_def)
  have e: "filter_expression ?es = str ''*.txt;*.md''" by (simp add: pattern_of_def str_def)
  show ?thesis
    using matches_filter_exact[OF 1 2 3 4 5, of "str ''notes.md''"]
      matches_filter_exact[OF 1 2 3 4 5, of "str ''a.TXT''"]
      matches_filter_exact[OF 1 2 3 4 5, of "str ''a.txt.bak''"]
      matches_filter_exact[OF 1 2 3 4 5, of "str ''Makefile''"]
    unfolding e by (simp add: str_def suffix_to_prefix)
qed

text \<open>
  C9. A filter that is not \<open>*.*\<close> and does not contain \<open>*.\<close> makes both filter predicates
  reject every file name; nothing falls back to a default pattern.
\<close>
theorem no_pattern_rejects:
  assumes "flt \<noteq> str ''*.*''" and "\<not> py_in (str ''*.'') flt" and "file_filter self = flt"
  shows "\<not> matches_filter self fn \<and> \<not> Window_matches_filter fn flt"
  using assms by (simp add: matches_filter_def Window_matches_filter_def)

theorem no_pattern_rejects_witness:
  "\<not> matches_filter (ConversionThread_init [] [] (str ''txt'')) (str ''a.txt'')
   \<and> \<not> Window_matches_filter (str ''a.txt'') (str ''txt'')
   \<and> \<not> matches_filter (ConversionThread_init [] [] []) (str ''a.txt'')
   \<and> \<not> Window_matches_filter (str ''a.txt'') []"
proof -
  have a: "str ''txt'' \<noteq> str ''*.*''" "\<not> py_in (str ''*.'') (str ''txt'')"
    "[] \<noteq> str ''*.*''" "\<not> py_in (str ''*.'') ([] :: pystr)"
    by (simp_all add: str_def)
  show ?thesis
    using no_pattern_rejects[OF a(1) a(2), of "ConversionThread_init [] [] (str ''txt'')" "str ''a.txt''"]
      no_pattern_rejects[OF a(3) a(4), of "ConversionThread_init [] [] []" "str ''a.txt''"]
    by (simp add: ConversionThread_init_def)
qed

section \<open>One matched file: properties\<close>

lemma msg_skipped_distinct:
  "msg_skipped fn \<noteq> msg_failed fn' x" "msg_skipped fn \<noteq> msg_timeout fn'"
  "msg_skipped fn \<noteq> msg_error fn' x" "msg_skipped fn \<noteq> msg_read_failed fn' x"
  "msg_skipped fn \<noteq> msg_converted fn' x"
  by (simp_all add: msg_skipped_def msg_converted_def msg_failed_def msg_timeout_def
      msg_error_def msg_read_failed_def)

lemma msg_outcomes_distinct:
  "msg_converted fn out \<noteq> msg_failed fn' x" "msg_converted fn out \<noteq> msg_timeout fn'"
  "msg_failed fn x \<noteq> msg_timeout fn'"
  by (simp_all add: msg_converted_def msg_failed_def msg_timeout_def)

lemma invocations_append: "invocations (xs @ ys) = invocations xs @ invocations ys"
  by (induction xs rule: invocations.induct) simp_all

lemma opened_files_append: "opened_files (xs @ ys) = opened_files xs @ opened_files ys"
  by (induction xs rule: opened_files.induct) simp_all

lemma progress_updates_append:
  "progress_updates (xs @ ys) = progress_updates xs @ progress_updates ys"
  by (induction xs rule: progress_updates.induct) simp_all

lemma end_signals_append: "end_signals (xs @ ys) = end_signals xs @ end_signals ys"
  by (induction xs rule: end_signals.induct) simp_all

text \<open>
  C4. A matched file whose text is empty after stripping whitespace is counted as
  processed: the thread emits the "converting" line, opens the file, emits the "skipped"
  line and the progress counters with the count raised by one, and nothing else. No
  staging file is created and no external command is started, so no audio file is
  written. The "skipped" line differs from every failure line, and the loop goes on with
  the next file name.
\<close>
theorem empty_file_skipped:
  assumes "read_result fe = Inr text" and "py_strip text = []"
  shows "convert_file fe dirpath fn self =
           self\<lparr>processed_files := processed_files self + 1,
                trace := trace self @
                  [Emit (Progress_signal (msg_converting fn)),
                   Open_read (os_path_join dirpath fn),
                   Emit (Progress_signal (msg_skipped fn)),
                   Emit (Progress_update (processed_files self + 1) (total_files self))]\<rparr>
       \<and> invocations (trace (convert_file fe dirpath fn self)) = invocations (trace self)
       \<and> tmp_files (convert_file fe dirpath fn self) = tmp_files self
       \<and> (\<forall>fn' x. msg_skipped fn \<noteq> msg_failed fn' x \<and> msg_skipped fn \<noteq> msg_timeout fn'
             \<and> msg_skipped fn \<noteq> msg_error fn' x \<and> msg_skipped fn \<noteq> msg_read_failed fn' x)
       \<and> (is_running self \<and> matches_filter self fn \<and> fenv (os_path_join dirpath fn) = fe
            \<and> \<not> stop_called fe \<longrightarrow>
          files_loop fenv dirpath (fn # filenames) self =
            files_loop fenv dirpath filenames (convert_file fe dirpath fn self))"
proof -
  have eq: "convert_file fe dirpath fn self =
           self\<lparr>processed_files := processed_files self + 1,
                trace := trace self @
                  [Emit (Progress_signal (msg_converting fn)),
                   Open_read (os_path_join dirpath fn),
                   Emit (Progress_signal (msg_skipped fn)),
                   Emit (Progress_update (processed_files self + 1) (total_files self))]\<rparr>"
    using assms by (simp add: convert_file_def Let_def count_processed_def emit_def effect_def)
  have inv: "invocations (trace (convert_file fe dirpath fn self)) = invocations (trace self)"
    unfolding eq by (simp add: invocations_append)
  have tmp: "tmp_files (convert_file fe dirpath fn self) = tmp_files self"
    unfolding eq by simp
  have loop: "is_running self \<and> matches_filter self fn \<and> fenv (os_path_join dirpath fn) = fe
            \<and> \<not> stop_called fe \<longrightarrow>
          files_loop fenv dirpath (fn # filenames) self =
            files_loop fenv dirpath filenames (convert_file fe dirpath fn self)"
    by (simp add: Let_def)
  show ?thesis using eq inv tmp loop msg_skipped_distinct by blast
qed


theorem empty_file_skipped_witness:
  "convert_file (example_file (str ''  '') (Completed 0 [] [])) (str ''d'') (str ''b.txt'')
     (example_thread (str ''*.txt'')) =
   (example_thread (str ''*.txt''))\<lparr>processed_files := 1,
      trace := [Emit (Progress_signal (msg_converting (str ''b.txt''))),
                Open_read (str ''d/b.txt''),
                Emit (Progress_signal (msg_skipped (str ''b.txt''))),
                Emit (Progress_update 1 0)]\<rparr>
   \<and> files_loop (\<lambda>p. example_file (str ''  '') (Completed 0 [] [])) (str ''d'') [str ''b.txt'']
       (example_thread (str ''*.txt'')) =
     convert_file (example_file (str ''  '') (Completed 0 [] [])) (str ''d'') (str ''b.txt'')
       (example_thread (str ''*.txt''))"
proof -
  let ?fe = "example_file (str ''  '') (Completed 0 [] [])"
  let ?self = "example_thread (str ''*.txt'')"
  have r: "read_result ?fe = Inr (str ''  '')" by (simp add: example_file_def)
  have s: "py_strip (str ''  '') = []" by (simp add: py_strip_def str_def isspace_def)
  have m: "matches_filter ?self (str ''b.txt'')"
    by (simp add: matches_filter_def example_thread_def ConversionThread_init_def str_def
        py_strip_def isspace_def py_endswith_def)
  have j: "os_path_join (str ''d'') (str ''b.txt'') = str ''d/b.txt''"
    by (simp add: os_path_join_def str_def py_endswith_def)
  have i: "is_running ?self" "processed_files ?self = 0" "total_files ?self = 0" "trace ?self = []"
    by (simp_all add: example_thread_def ConversionThread_init_def)
  have n: "\<not> stop_called ?fe" by (simp add: example_file_def)
  show ?thesis
    using empty_file_skipped[OF r s, of "str ''d''" "str ''b.txt''" ?self "\<lambda>p. ?fe" "[]"] m i n
    by (simp add: j)
qed

lemma py_replace_set: "set (py_replace s old new) \<subseteq> set s \<union> set new"
proof (induction s old new rule: py_replace.induct)
  case (1 old new)
  then show ?case by auto
next
  case (2 c cs old new)
  have "set (drop (length old) (c # cs)) \<subseteq> set (c # cs)" by (rule set_drop_subset)
  then show ?case using 2 by auto
qed

lemma os_path_basename_join:
  assumes "of_char CHR ''/'' \<notin> set b"
  shows "os_path_basename (os_path_join a b) = b"
proof -
  let ?P = "\<lambda>c. c \<noteq> (47 :: nat)"
  have all: "\<forall>x\<in>set (rev b). ?P x" using assms by auto
  have np: "\<not> prefix (str ''/'') b" using assms by (cases b) (auto simp: str_def)
  have tw: "takeWhile ?P (rev b @ 47 # ys) = rev b" for ys
    using takeWhile_append2[of "rev b" ?P "47 # ys"] all by simp
  have tw0: "takeWhile ?P (rev b) = rev b"
    using all takeWhile_eq_all_conv[of ?P "rev b"] by blast
  show ?thesis
  proof (cases "a = []")
    case True
    then show ?thesis using np by (simp add: os_path_join_def os_path_basename_def tw0)
  next
    case False
    show ?thesis
    proof (cases "py_endswith a (str ''/'')")
      case True
      then obtain ys where "rev a = 47 # ys"
        by (cases "rev a") (auto simp: py_endswith_def str_def)
      then show ?thesis using np True
        by (simp add: os_path_join_def os_path_basename_def tw)
    next
      case False
      then show ?thesis using np \<open>a \<noteq> []\<close>
        by (simp add: os_path_join_def os_path_basename_def str_def tw)
    qed
  qed
qed

lemma mp3Path_basename:
  assumes "of_char CHR ''/'' \<notin> set fn"
  shows "os_path_basename (mp3Path dirpath fn) = py_replace fn (str ''.txt'') (str ''.mp3'')"
proof -
  have "of_char CHR ''/'' \<notin> set (str ''.mp3'')" by (simp add: str_def)
  then have "of_char CHR ''/'' \<notin> set (py_replace fn (str ''.txt'') (str ''.mp3''))"
    using assms py_replace_set[of fn "str ''.txt''" "str ''.mp3''"] by blast
  then show ?thesis unfolding mp3Path_def by (rule os_path_basename_join)
qed

text \<open>
  The success line does not carry the output path: for \<open>a.txt\<close> in directory \<open>d\<close> the
  output path is \<open>d/a.mp3\<close>, and the two log lines of the file are the "converting" line
  and the "converted" line with the bare name \<open>a.mp3\<close>, in which the path does not occur.
\<close>
theorem success_line_is_not_output_path:
  "progress_lines (trace (convert_file (example_file (str ''hello'') (Completed 0 [] []))
      (str ''d'') (str ''a.txt'') (example_thread (str ''*.txt'')))) =
     [msg_converting (str ''a.txt''), msg_converted (str ''a.txt'') (str ''a.mp3'')]
   \<and> mp3Path (str ''d'') (str ''a.txt'') = str ''d/a.mp3''
   \<and> msg_converted (str ''a.txt'') (str ''a.mp3'')
       \<noteq> msg_converted (str ''a.txt'') (mp3Path (str ''d'') (str ''a.txt''))
   \<and> \<not> py_in (mp3Path (str ''d'') (str ''a.txt'')) (msg_converted (str ''a.txt'') (str ''a.mp3''))"
proof -
  have s: "py_strip (str ''hello'') \<noteq> []"
    by (simp add: py_strip_def str_def isspace_def)
  have p: "mp3Path (str ''d'') (str ''a.txt'') = str ''d/a.mp3''"
    by (simp add: mp3Path_def os_path_join_def str_def py_endswith_def)
  have r: "py_replace (str ''a.txt'') (str ''.txt'') (str ''.mp3'') = str ''a.mp3''"
    by (simp add: str_def)
  have l: "progress_lines (trace (convert_file (example_file (str ''hello'') (Completed 0 [] []))
      (str ''d'') (str ''a.txt'') (example_thread (str ''*.txt'')))) =
     [msg_converting (str ''a.txt''), msg_converted (str ''a.txt'') (str ''a.mp3'')]"
    by (simp add: convert_file_def example_file_def example_thread_def ConversionThread_init_def
        Let_def count_processed_def emit_def effect_def unlink_tmp_def s r)
  have d: "msg_converted (str ''a.txt'') (str ''a.mp3'')
       \<noteq> msg_converted (str ''a.txt'') (str ''d/a.mp3'')"
    by (simp add: msg_converted_def str_def)
  have n: "\<not> py_in (str ''d/a.mp3'') (msg_converted (str ''a.txt'') (str ''a.mp3''))"
    by (simp add: msg_converted_def str_def)
  show ?thesis using l d n unfolding p by simp
qed

text \<open>
  C5. For a file with non-empty text that has been staged, the external command is run
  once with a timeout of 60 seconds and the three outcomes are recorded by three
  different lines: exit status zero records "converted" with the file name of the output
  path given to the command (the output path without its directory); a non-zero exit
  status records "conversion failed" with the first 100 characters of standard error, or
  of standard output when standard error is empty, or of a fixed text when both are; a
  timeout records "conversion timed out". File names are those of a directory listing:
  they contain no separator.
\<close>
theorem synthesis_outcomes_recorded:
  assumes "read_result fe = Inr text" and "py_strip text \<noteq> []" and "tmp_result fe = Inr tmp_path"
    and "of_char CHR ''/'' \<notin> set fn"
    and "staged = [Emit (Progress_signal (msg_converting fn)),
                   Open_read (os_path_join dirpath fn),
                   Temp_create tmp_path (py_strip text),
                   Subprocess_run [str ''edge-tts'', str ''--voice'', voice self,
                                   str ''--file'', tmp_path,
                                   str ''--write-media'', mp3Path dirpath fn] 60]"
    and "counted = Emit (Progress_update (processed_files self + 1) (total_files self))"
  shows "(run_result fe = Completed 0 out err \<longrightarrow>
            trace (convert_file fe dirpath fn self) = trace self @ staged @
              [Unlink tmp_path,
               Emit (Progress_signal (msg_converted fn (os_path_basename (mp3Path dirpath fn)))),
               counted])
       \<and> (run_result fe = Completed returncode out err \<and> returncode \<noteq> 0 \<longrightarrow>
            trace (convert_file fe dirpath fn self) = trace self @ staged @
              [Unlink tmp_path,
               Emit (Progress_signal (msg_failed fn
                 (take 100 (if err \<noteq> [] then err else if out \<noteq> [] then out
                            else txt_unknown_error)))),
               counted])
       \<and> (run_result fe = Timeout_expired \<longrightarrow>
            trace (convert_file fe dirpath fn self) = trace self @ staged @
              [Emit (Progress_signal (msg_timeout fn)), counted])
       \<and> (\<forall>fn1 fn2 fn3 name excerpt.
            msg_converted fn1 name \<noteq> msg_failed fn2 excerpt
          \<and> msg_converted fn1 name \<noteq> msg_timeout fn3
          \<and> msg_failed fn2 excerpt \<noteq> msg_timeout fn3)"
proof -
  note base = mp3Path_basename[OF assms(4), of dirpath]
  have ok: "run_result fe = Completed 0 out err \<longrightarrow>
            trace (convert_file fe dirpath fn self) = trace self @ staged @
              [Unlink tmp_path,
               Emit (Progress_signal (msg_converted fn (os_path_basename (mp3Path dirpath fn)))),
               counted]"
    using assms(1,2,3,5,6) unfolding base
    by (simp add: convert_file_def Let_def count_processed_def emit_def effect_def unlink_tmp_def)
  have failed: "run_result fe = Completed returncode out err \<and> returncode \<noteq> 0 \<longrightarrow>
            trace (convert_file fe dirpath fn self) = trace self @ staged @
              [Unlink tmp_path,
               Emit (Progress_signal (msg_failed fn
                 (take 100 (if err \<noteq> [] then err else if out \<noteq> [] then out
                            else txt_unknown_error)))),
               counted]"
    using assms(1,2,3,5,6)
    by (simp add: convert_file_def Let_def count_processed_def emit_def effect_def unlink_tmp_def
        py_or_def)
  have timeout: "run_result fe = Timeout_expired \<longrightarrow>
            trace (convert_file fe dirpath fn self) = trace self @ staged @
              [Emit (Progress_signal (msg_timeout fn)), counted]"
    using assms(1,2,3,5,6)
    by (simp add: convert_file_def Let_def count_processed_def emit_def effect_def)
  show ?thesis using ok failed timeout msg_outcomes_distinct by blast
qed

theorem synthesis_outcomes_recorded_witness:
  "trace (convert_file (example_file (str ''hello '') (Completed 0 [] [])) (str ''d'')
            (str ''a.txt'') (example_thread (str ''*.txt''))) =
     [Emit (Progress_signal (msg_converting (str ''a.txt''))),
      Open_read (str ''d/a.txt''),
      Temp_create (str ''/tmp/tmpk3v9.txt'') (str ''hello''),
      Subprocess_run [str ''edge-tts'', str ''--voice'', str ''zh-CN-YunjianNeural'',
                      str ''--file'', str ''/tmp/tmpk3v9.txt'',
                      str ''--write-media'', str ''d/a.mp3''] 60,
      Unlink (str ''/tmp/tmpk3v9.txt''),
      Emit (Progress_signal (msg_converted (str ''a.txt'') (str ''a.mp3''))),
      Emit (Progress_update 1 0)]
   \<and> trace (convert_file (example_file (str ''hello '') (Completed 1 [] (str ''boom''))) (str ''d'')
            (str ''a.txt'') (example_thread (str ''*.txt''))) =
     [Emit (Progress_signal (msg_converting (str ''a.txt''))),
      Open_read (str ''d/a.txt''),
      Temp_create (str ''/tmp/tmpk3v9.txt'') (str ''hello''),
      Subprocess_run [str ''edge-tts'', str ''--voice'', str ''zh-CN-YunjianNeural'',
                      str ''--file'', str ''/tmp/tmpk3v9.txt'',
                      str ''--write-media'', str ''d/a.mp3''] 60,
      Unlink (str ''/tmp/tmpk3v9.txt''),
      Emit (Progress_signal (msg_failed (str ''a.txt'') (str ''boom''))),
      Emit (Progress_update 1 0)]
   \<and> trace (convert_file (example_file (str ''hello '') Timeout_expired) (str ''d'')
            (str ''a.txt'') (example_thread (str ''*.txt''))) =
     [Emit (Progress_signal (msg_converting (str ''a.txt''))),
      Open_read (str ''d/a.txt''),
      Temp_create (str ''/tmp/tmpk3v9.txt'') (str ''hello''),
      Subprocess_run [str ''edge-tts'', str ''--voice'', str ''zh-CN-YunjianNeural'',
                      str ''--file'', str ''/tmp/tmpk3v9.txt'',
                      str ''--write-media'', str ''d/a.mp3''] 60,
      Emit (Progress_signal (msg_timeout (str ''a.txt''))),
      Emit (Progress_update 1 0)]"
proof -
  let ?self = "example_thread (str ''*.txt'')"
  have r: "\<And>p. read_result (example_file (str ''hello '') p) = Inr (str ''hello '')"
    and t: "\<And>p. tmp_result (example_file (str ''hello '') p) = Inr (str ''/tmp/tmpk3v9.txt'')"
    and p: "\<And>p. run_result (example_file (str ''hello '') p) = p"
    by (simp_all add: example_file_def)
  have s: "py_strip (str ''hello '') = str ''hello''"
    by (simp add: py_strip_def str_def isspace_def)
  then have s': "py_strip (str ''hello '') \<noteq> []" by (simp add: str_def)
  have f: "of_char CHR ''/'' \<notin> set (str ''a.txt'')" by (simp add: str_def)
  have j: "os_path_join (str ''d'') (str ''a.txt'') = str ''d/a.txt''"
    "mp3Path (str ''d'') (str ''a.txt'') = str ''d/a.mp3''"
    "os_path_basename (str ''d/a.mp3'') = str ''a.mp3''"
    by (simp_all add: os_path_join_def str_def py_endswith_def mp3Path_def os_path_basename_def)
  have i: "voice ?self = str ''zh-CN-YunjianNeural''" "processed_files ?self = 0"
    "total_files ?self = 0" "trace ?self = []"
    by (simp_all add: example_thread_def ConversionThread_init_def)
  have u: "[] \<noteq> str ''boom''" by (simp add: str_def)
  have k: "take 100 (str ''boom'') = str ''boom''" by (simp add: str_def)
  show ?thesis
    using synthesis_outcomes_recorded[OF r s' t f refl refl,
        of "Completed 0 [] []" "[]" "[]" "str ''d''" ?self 1]
      synthesis_outcomes_recorded[OF r s' t f refl refl,
        of "Completed 1 [] (str ''boom'')" "[]" "str ''boom''" "str ''d''" ?self 1]
      synthesis_outcomes_recorded[OF r s' t f refl refl,
        of "Timeout_expired" "[]" "[]" "str ''d''" ?self 1]
    by (simp add: p s j i k u[symmetric])
qed

text \<open>
  C3. The staging file after the external command: when the command times out, the
  staging file is still there once the file has been handled and no unlink was attempted;
  when the command completes, here with exit status 1, it has been unlinked.
\<close>
theorem staging_file_left_on_timeout:
  "tmp_files (convert_file (example_file (str ''hello'') Timeout_expired) (str ''d'')
      (str ''a.txt'') (example_thread (str ''*.txt''))) = [str ''/tmp/tmpk3v9.txt'']
   \<and> Unlink (str ''/tmp/tmpk3v9.txt'') \<notin> set (trace (convert_file
      (example_file (str ''hello'') Timeout_expired) (str ''d'') (str ''a.txt'')
      (example_thread (str ''*.txt''))))
   \<and> tmp_files (convert_file (example_file (str ''hello'') (Completed 1 [] [])) (str ''d'')
      (str ''a.txt'') (example_thread (str ''*.txt''))) = []
   \<and> Unlink (str ''/tmp/tmpk3v9.txt'') \<in> set (trace (convert_file
      (example_file (str ''hello'') (Completed 1 [] [])) (str ''d'') (str ''a.txt'')
      (example_thread (str ''*.txt''))))"
proof -
  have s: "py_strip (str ''hello'') = str ''hello''"
    by (simp add: py_strip_def str_def isspace_def)
  then have s': "py_strip (str ''hello'') \<noteq> []" by (simp add: str_def)
  show ?thesis
    by (simp add: convert_file_def example_file_def example_thread_def ConversionThread_init_def
        Let_def count_processed_def emit_def effect_def unlink_tmp_def s')
qed

text \<open>
  C1. The output path is the directory joined with the file name in which every
  occurrence of \<open>.txt\<close> is replaced by \<open>.mp3\<close>: for \<open>c.md\<close>, matched by \<open>*.md\<close>, it is
  the path of the source file itself; for \<open>a.txt.txt\<close> it is \<open>d/a.mp3.mp3\<close>; for \<open>a.txt\<close>
  it is \<open>d/a.mp3\<close>.
\<close>
theorem output_path_replaces_only_txt:
  "matches_filter (example_thread (str ''*.md'')) (str ''c.md'')
   \<and> mp3Path (str ''d'') (str ''c.md'') = str ''d/c.md''
   \<and> mp3Path (str ''d'') (str ''c.md'') = os_path_join (str ''d'') (str ''c.md'')
   \<and> matches_filter (example_thread (str ''*.txt'')) (str ''a.txt.txt'')
   \<and> mp3Path (str ''d'') (str ''a.txt.txt'') = str ''d/a.mp3.mp3''
   \<and> mp3Path (str ''d'') (str ''a.txt'') = str ''d/a.mp3''"
  by (simp add: matches_filter_def example_thread_def ConversionThread_init_def str_def
      py_strip_def isspace_def py_endswith_def mp3Path_def os_path_join_def)

section \<open>The loops and the run: properties\<close>

lemma convert_file_fields:
  "is_running (convert_file fe d fn self) = is_running self"
  "file_filter (convert_file fe d fn self) = file_filter self"
  "total_files (convert_file fe d fn self) = total_files self"
  "processed_files (convert_file fe d fn self) = Suc (processed_files self)"
  by (auto simp: convert_file_def Let_def count_processed_def emit_def effect_def unlink_tmp_def
      split: sum.splits proc_result.splits)

lemma convert_file_opened:
  "opened_files (trace (convert_file fe d fn self)) = opened_files (trace self) @ [os_path_join d fn]"
  by (auto simp: convert_file_def Let_def count_processed_def emit_def effect_def unlink_tmp_def
      opened_files_append split: sum.splits proc_result.splits)

lemma convert_file_updates:
  "progress_updates (trace (convert_file fe d fn self)) =
     progress_updates (trace self) @ [(Suc (processed_files self), total_files self)]"
  by (auto simp: convert_file_def Let_def count_processed_def emit_def effect_def unlink_tmp_def
      progress_updates_append split: sum.splits proc_result.splits)

lemma convert_file_end_signals:
  "end_signals (trace (convert_file fe d fn self)) = end_signals (trace self)"
  by (auto simp: convert_file_def Let_def count_processed_def emit_def effect_def unlink_tmp_def
      end_signals_append split: sum.splits proc_result.splits)

lemma convert_file_prefix: "prefix (trace self) (trace (convert_file fe d fn self))"
  by (auto simp: convert_file_def Let_def count_processed_def emit_def effect_def unlink_tmp_def
      split: sum.splits proc_result.splits)

lemma convert_file_invocations:
  "length (invocations (trace (convert_file fe d fn self))) \<le> Suc (length (invocations (trace self)))"
  by (auto simp: convert_file_def Let_def count_processed_def emit_def effect_def unlink_tmp_def
      invocations_append split: sum.splits proc_result.splits)

lemma convert_file_stop: "convert_file fe d fn (stop self) = stop (convert_file fe d fn self)"
  by (auto simp: convert_file_def Let_def count_processed_def emit_def effect_def unlink_tmp_def
      stop_def split: sum.splits proc_result.splits)

lemma stop_fields:
  "\<not> is_running (stop self)" "trace (stop self) = trace self"
  "file_filter (stop self) = file_filter self" "total_files (stop self) = total_files self"
  "processed_files (stop self) = processed_files self"
  by (simp_all add: stop_def)

lemma files_loop_stopped: "\<not> is_running self \<Longrightarrow> files_loop fenv d fns self = self"
  by (cases fns) simp_all

lemma convert_walk_stopped: "\<not> is_running self \<Longrightarrow> snd (convert_walk fenv wk self) = self"
  by (cases wk) simp_all

lemma files_loop_append:
  "files_loop fenv d (xs @ ys) self = files_loop fenv d ys (files_loop fenv d xs self)"
  by (induction xs arbitrary: self) (simp_all add: files_loop_stopped Let_def)

lemma files_loop_prefix: "prefix (trace self) (trace (files_loop fenv d fns self))"
proof (induction fns arbitrary: self)
  case Nil
  then show ?case by simp
next
  case (Cons fn fns)
  let ?fe = "fenv (os_path_join d fn)"
  let ?s1 = "if matches_filter self fn then convert_file ?fe d fn self else self"
  let ?s2 = "if stop_called ?fe then stop ?s1 else ?s1"
  have "prefix (trace self) (trace ?s2)" by (simp add: convert_file_prefix stop_fields)
  moreover have "prefix (trace ?s2) (trace (files_loop fenv d fns ?s2))" by (rule Cons.IH)
  ultimately have "prefix (trace self) (trace (files_loop fenv d fns ?s2))"
    by (rule prefix_order.trans)
  then show ?case by (simp add: Let_def)
qed

lemma convert_walk_prefix: "prefix (trace self) (trace (snd (convert_walk fenv wk self)))"
proof (induction wk arbitrary: self)
  case (Walk_yield dirpath dirnames filenames rest)
  have "prefix (trace self) (trace (files_loop fenv dirpath filenames self))"
    by (rule files_loop_prefix)
  moreover have "prefix (trace (files_loop fenv dirpath filenames self))
      (trace (snd (convert_walk fenv rest (files_loop fenv dirpath filenames self))))"
    by (rule Walk_yield.IH)
  ultimately show ?case using prefix_order.trans by auto
qed simp_all

text \<open>
  C7. Cancellation takes effect at item boundaries only. Once the flag is cleared, the
  inner and the outer loop leave the state as it is: no further file is started and no
  further event, so no notification, is added. Handling a file neither reads nor changes
  the flag, so a call of \<open>stop\<close> that arrives while a file is handled lets that file
  finish; the loop then ends, whatever file names follow. The trace only grows: what was
  recorded for the files already handled is kept.
\<close>
theorem cancellation_at_item_boundary:
  "(\<not> is_running self \<longrightarrow>
      files_loop fenv dirpath filenames self = self \<and> snd (convert_walk fenv wk self) = self)
   \<and> convert_file fe dirpath fn (stop self) = stop (convert_file fe dirpath fn self)
   \<and> (is_running self \<and> stop_called (fenv (os_path_join dirpath fn)) \<longrightarrow>
        files_loop fenv dirpath (fn # filenames) self =
          stop (if matches_filter self fn
                then convert_file (fenv (os_path_join dirpath fn)) dirpath fn self else self))
   \<and> (stop_called (fenv (os_path_join dirpath fn)) \<longrightarrow>
        files_loop fenv dirpath (before @ fn # filenames) self =
          files_loop fenv dirpath (before @ [fn]) self)
   \<and> prefix (trace self) (trace (files_loop fenv dirpath filenames self))
   \<and> prefix (trace self) (trace (snd (convert_walk fenv wk self)))"
proof -
  have a: "\<not> is_running self \<longrightarrow>
      files_loop fenv dirpath filenames self = self \<and> snd (convert_walk fenv wk self) = self"
    by (simp add: files_loop_stopped convert_walk_stopped)
  have b: "is_running self \<and> stop_called (fenv (os_path_join dirpath fn)) \<longrightarrow>
        files_loop fenv dirpath (fn # filenames) self =
          stop (if matches_filter self fn
                then convert_file (fenv (os_path_join dirpath fn)) dirpath fn self else self)"
    by (simp add: Let_def files_loop_stopped stop_fields)
  have c: "stop_called (fenv (os_path_join dirpath fn)) \<longrightarrow>
        files_loop fenv dirpath (before @ fn # filenames) self =
          files_loop fenv dirpath (before @ [fn]) self"
    by (simp add: files_loop_append Let_def files_loop_stopped stop_fields)
  show ?thesis
    using a b c convert_file_stop files_loop_prefix convert_walk_prefix by blast
qed

lemma matches_filter_cong:
  "file_filter a = file_filter b \<Longrightarrow> matches_filter a fn = matches_filter b fn"
  by (simp add: matches_filter_Window)

lemma count_files_eq:
  "count_files fs self =
     self\<lparr>total_files := total_files self
        + length (filter (\<lambda>fn. Window_matches_filter fn (file_filter self)) fs)\<rparr>"
  by (induction fs arbitrary: self) (simp_all add: matches_filter_Window)

lemma count_walk_list:
  "count_walk (walk_of_list tree) self =
     (None, self\<lparr>total_files := total_files self + length (matching_paths (file_filter self) tree)\<rparr>)"
  by (induction tree arbitrary: self rule: walk_of_list.induct) (simp_all add: count_files_eq)

lemma upt_shift: "[Suc p..<Suc (p + Suc n)] = Suc p # [Suc (Suc p)..<Suc (Suc p + n)]"
  by (simp add: upt_conv_Cons del: upt_Suc)

lemma files_loop_all:
  assumes "is_running self" and "\<forall>p. \<not> stop_called (fenv p)"
    and "ms = filter (\<lambda>fn. Window_matches_filter fn (file_filter self)) fs"
    and "r = files_loop fenv d fs self"
  shows "is_running r \<and> file_filter r = file_filter self \<and> total_files r = total_files self
       \<and> processed_files r = processed_files self + length ms
       \<and> opened_files (trace r) = opened_files (trace self) @ map (os_path_join d) ms
       \<and> progress_updates (trace r) = progress_updates (trace self)
            @ map (\<lambda>k. (k, total_files self))
                [Suc (processed_files self)..<Suc (processed_files self + length ms)]
       \<and> length (invocations (trace r)) \<le> length (invocations (trace self)) + length ms
       \<and> end_signals (trace r) = end_signals (trace self)"
  using assms
proof (induction fs arbitrary: self ms r)
  case Nil
  then show ?case by simp
next
  case (Cons fn fs)
  show ?case
  proof (cases "Window_matches_filter fn (file_filter self)")
    case False
    then have r: "r = files_loop fenv d fs self"
      and ms: "ms = filter (\<lambda>fn. Window_matches_filter fn (file_filter self)) fs"
      using Cons.prems by (simp_all add: Let_def matches_filter_Window)
    show ?thesis by (rule Cons.IH[OF Cons.prems(1,2) ms r])
  next
    case True
    let ?s = "convert_file (fenv (os_path_join d fn)) d fn self"
    let ?ms = "filter (\<lambda>fn. Window_matches_filter fn (file_filter ?s)) fs"
    have r: "r = files_loop fenv d fs ?s"
      using Cons.prems True by (simp add: Let_def matches_filter_Window)
    have ms: "ms = fn # ?ms" using Cons.prems(3) True by (simp add: convert_file_fields)
    have run: "is_running ?s" using Cons.prems(1) by (simp add: convert_file_fields)
    note ih = Cons.IH[OF run Cons.prems(2) refl r]
    have upt: "[Suc (processed_files self)..<Suc (processed_files self + length ms)] =
        Suc (processed_files self) # [Suc (Suc (processed_files self))..<Suc (Suc (processed_files self) + length ?ms)]"
      unfolding ms using upt_shift[of "processed_files self" "length ?ms"] by simp
    have inv: "length (invocations (trace ?s)) \<le> Suc (length (invocations (trace self)))"
      by (rule convert_file_invocations)
    show ?thesis
      using ih inv unfolding upt
      by (simp add: convert_file_fields convert_file_opened convert_file_updates
          convert_file_end_signals ms)
  qed
qed

lemma upt_join: "[Suc p..<Suc (p + a)] @ [Suc (p + a)..<Suc (p + a + b)] = [Suc p..<Suc (p + (a + b))]"
  using upt_add_eq_append[of "Suc p" "Suc (p + a)" b] by (simp add: add.assoc)

lemma convert_walk_all:
  assumes "is_running self" and "\<forall>p. \<not> stop_called (fenv p)"
    and "ms = matching_paths (file_filter self) tree"
    and "r = snd (convert_walk fenv (walk_of_list tree) self)"
  shows "fst (convert_walk fenv (walk_of_list tree) self) = None
       \<and> file_filter r = file_filter self \<and> total_files r = total_files self
       \<and> processed_files r = processed_files self + length ms
       \<and> opened_files (trace r) = opened_files (trace self) @ ms
       \<and> progress_updates (trace r) = progress_updates (trace self)
            @ map (\<lambda>k. (k, total_files self))
                [Suc (processed_files self)..<Suc (processed_files self + length ms)]
       \<and> length (invocations (trace r)) \<le> length (invocations (trace self)) + length ms
       \<and> end_signals (trace r) = end_signals (trace self)"
  using assms
proof (induction tree arbitrary: self ms r rule: walk_of_list.induct)
  case 1
  then show ?case by simp
next
  case (2 dirpath dirnames filenames rest)
  let ?fs = "filter (\<lambda>fn. Window_matches_filter fn (file_filter self)) filenames"
  let ?s = "files_loop fenv dirpath filenames self"
  let ?rest = "matching_paths (file_filter ?s) rest"
  note head = files_loop_all[OF "2.prems"(1,2) refl refl, of dirpath filenames]
  have r: "r = snd (convert_walk fenv (walk_of_list rest) ?s)"
    using "2.prems" by simp
  have run: "is_running ?s" using head by simp
  note ih = "2.IH"[OF run "2.prems"(2) refl r]
  have ms: "ms = map (os_path_join dirpath) ?fs @ ?rest"
    using "2.prems"(3) head by simp
  have len: "length ms = length ?fs + length ?rest" unfolding ms by simp
  have fst: "fst (convert_walk fenv (walk_of_list ((dirpath, dirnames, filenames) # rest)) self) = None"
    using ih "2.prems"(1) by simp
  have upd: "progress_updates (trace r) = progress_updates (trace self)
            @ map (\<lambda>k. (k, total_files self))
                [Suc (processed_files self)..<Suc (processed_files self + length ms)]"
  proof -
    have "progress_updates (trace r) = progress_updates (trace self)
        @ map (\<lambda>k. (k, total_files self))
            ([Suc (processed_files self)..<Suc (processed_files self + length ?fs)]
             @ [Suc (processed_files self + length ?fs)..<
                  Suc (processed_files self + length ?fs + length ?rest)])"
      using ih head by simp
    then show ?thesis unfolding len upt_join .
  qed
  have inv: "length (invocations (trace r)) \<le> length (invocations (trace self)) + length ms"
    using ih head unfolding len by linarith
  show ?case
    using fst upd inv ih head unfolding len by (simp add: ms)
qed

lemma progress_lines_append: "progress_lines (xs @ ys) = progress_lines xs @ progress_lines ys"
  by (induction xs rule: progress_lines.induct) simp_all

lemma convert_file_voice: "voice (convert_file fe d fn self) = voice self"
  by (auto simp: convert_file_def Let_def count_processed_def emit_def effect_def unlink_tmp_def
      split: sum.splits proc_result.splits)

lemma convert_file_invocations_exact:
  "invocations (trace (convert_file fe d fn self)) =
     invocations (trace self) @ file_invocations fe (voice self) d fn"
  by (auto simp: convert_file_def Let_def count_processed_def emit_def effect_def unlink_tmp_def
      invocations_append file_invocations_def staging_def split: sum.splits proc_result.splits)

lemma convert_file_lines:
  "length (progress_lines (trace (convert_file fe d fn self))) =
     length (progress_lines (trace self)) + 2
   \<and> progress_lines (trace (convert_file fe d fn self)) ! length (progress_lines (trace self)) =
     msg_converting fn"
  by (auto simp: convert_file_def Let_def count_processed_def emit_def effect_def unlink_tmp_def
      progress_lines_append nth_append split: sum.splits proc_result.splits)

lemma files_loop_invocations:
  assumes "is_running self" and "\<forall>p. \<not> stop_called (fenv p)"
  shows "invocations (trace (files_loop fenv d fs self)) =
           invocations (trace self)
           @ concat (map (\<lambda>fn. file_invocations (fenv (os_path_join d fn)) (voice self) d fn)
                         (filter (\<lambda>fn. Window_matches_filter fn (file_filter self)) fs))
       \<and> voice (files_loop fenv d fs self) = voice self
       \<and> length (progress_lines (trace (files_loop fenv d fs self))) =
           length (progress_lines (trace self))
           + 2 * length (filter (\<lambda>fn. Window_matches_filter fn (file_filter self)) fs)"
  using assms
proof (induction fs arbitrary: self)
  case Nil
  then show ?case by simp
next
  case (Cons fn fs)
  show ?case
  proof (cases "Window_matches_filter fn (file_filter self)")
    case False
    then have "files_loop fenv d (fn # fs) self = files_loop fenv d fs self"
      using Cons.prems by (simp add: Let_def matches_filter_Window)
    then show ?thesis using Cons.IH[OF Cons.prems] False by simp
  next
    case True
    let ?s = "convert_file (fenv (os_path_join d fn)) d fn self"
    have r: "files_loop fenv d (fn # fs) self = files_loop fenv d fs ?s"
      using Cons.prems True by (simp add: Let_def matches_filter_Window)
    have run: "is_running ?s" using Cons.prems(1) by (simp add: convert_file_fields)
    note ih = Cons.IH[OF run Cons.prems(2)]
    show ?thesis
      unfolding r using ih True
      by (simp add: convert_file_fields convert_file_voice convert_file_invocations_exact
          convert_file_lines)
  qed
qed

lemma convert_walk_invocations:
  assumes "is_running self" and "\<forall>p. \<not> stop_called (fenv p)"
  shows "invocations (trace (snd (convert_walk fenv (walk_of_list tree) self))) =
           invocations (trace self)
           @ expected_invocations fenv (voice self) (file_filter self) tree
       \<and> length (progress_lines (trace (snd (convert_walk fenv (walk_of_list tree) self)))) =
           length (progress_lines (trace self))
           + 2 * length (matching_paths (file_filter self) tree)"
  using assms
proof (induction tree arbitrary: self rule: walk_of_list.induct)
  case 1
  then show ?case by simp
next
  case (2 dirpath dirnames filenames rest)
  let ?s = "files_loop fenv dirpath filenames self"
  note head = files_loop_all[OF "2.prems"(1,2) refl refl, of dirpath filenames]
  note hinv = files_loop_invocations[OF "2.prems"(1,2), of dirpath filenames]
  have run: "is_running ?s" using head by simp
  note ih = "2.IH"[OF run "2.prems"(2)]
  show ?case using ih head hinv "2.prems"(1) by simp
qed

text \<open>
  C6. When both traversals yield the same tree without raising and \<open>stop\<close> is never
  called, the run reports the number \<open>N\<close> of matching files as the total, opens exactly
  the matching files, each once and in traversal order, and emits the progress counters
  \<open>(0, N), (1, N), ..., (N, N)\<close>. The external commands it starts are exactly one for
  each matching file that is staged (read without error, not empty, staging file
  created), for that file's staging file and output path, in traversal order, and none
  for any other file: no file is tried again, whatever its outcome. Every matching file
  gets two log lines, so the run emits \<open>2 + 2 * N\<close> of them, and it ends with
  \<open>processed_files = N\<close> and the completion signal alone.
\<close>
theorem all_matching_files_processed_once:
  assumes "first_walk env = walk_of_list tree" and "second_walk env = walk_of_list tree"
    and "\<not> stop_before_loop env" and "\<forall>p. \<not> stop_called (files env p)"
    and "r = run env (ConversionThread_init folder v flt)"
    and "N = length (matching_paths flt tree)"
  shows "total_files r = N \<and> processed_files r = N
       \<and> opened_files (trace r) = matching_paths flt tree
       \<and> progress_updates (trace r) = map (\<lambda>k. (k, N)) [0..<Suc N]
       \<and> invocations (trace r) = expected_invocations (files env) v flt tree
       \<and> length (invocations (trace r)) \<le> N
       \<and> length (progress_lines (trace r)) = 2 + 2 * N
       \<and> end_signals (trace r) = [Finished_signal]"
proof -
  let ?init = "ConversionThread_init folder v flt"
  let ?s3 = "(emit (Progress_signal (ensure_edge_tts_updated (pip_result env)))
               (emit (Progress_signal msg_checking) ?init))\<lparr>total_files := 0\<rparr>"
  let ?s4 = "?s3\<lparr>total_files := total_files ?s3 + length (matching_paths (file_filter ?s3) tree)\<rparr>"
  let ?s6 = "emit (Progress_update 0 (total_files (?s4\<lparr>processed_files := 0\<rparr>)))
               (?s4\<lparr>processed_files := 0\<rparr>)"
  define s6 where "s6 = ?s6"
  have body: "run_body env ?init = convert_walk (files env) (walk_of_list tree) s6"
    using assms(1-3) unfolding s6_def by (simp add: run_body_def Let_def count_walk_list)
  have s6: "is_running s6" "file_filter s6 = flt" "total_files s6 = N"
    "processed_files s6 = 0" "opened_files (trace s6) = []"
    "progress_updates (trace s6) = [(0, N)]" "invocations (trace s6) = []"
    "end_signals (trace s6) = []" "voice s6 = v" "length (progress_lines (trace s6)) = 2"
    using assms(6) unfolding s6_def
    by (simp_all add: emit_def ConversionThread_init_def opened_files_append
        progress_updates_append invocations_append end_signals_append progress_lines_append)
  define r' where "r' = snd (convert_walk (files env) (walk_of_list tree) s6)"
  have ms: "matching_paths flt tree = matching_paths (file_filter s6) tree"
    using s6(2) by simp
  note w = convert_walk_all[OF s6(1) assms(4) ms r'_def]
  note wi = convert_walk_invocations[OF s6(1) assms(4), of tree, folded r'_def]
  have none: "fst (run_body env ?init) = None" using w body by simp
  have r: "r = emit Finished_signal r'"
    using assms(5) none body unfolding r'_def
    by (simp add: run_def split: prod.splits option.splits)
  have upt: "(0, N) # map (\<lambda>k. (k, N)) [Suc 0..<Suc N] = map (\<lambda>k. (k, N)) [0..<Suc N]"
    by (simp add: upt_conv_Cons del: upt_Suc)
  have "total_files r = N" "processed_files r = N"
    using w s6 assms(6) unfolding r by (simp_all add: emit_def)
  moreover have "opened_files (trace r) = matching_paths flt tree"
    using w s6 unfolding r by (simp add: emit_def opened_files_append)
  moreover have "progress_updates (trace r) = map (\<lambda>k. (k, N)) [0..<Suc N]"
    using w s6 assms(6) upt unfolding r by (simp add: emit_def progress_updates_append del: upt_Suc)
  moreover have "invocations (trace r) = expected_invocations (files env) v flt tree"
    using wi s6 unfolding r by (simp add: emit_def invocations_append)
  moreover have "length (invocations (trace r)) \<le> N"
    using w s6 assms(6) unfolding r by (simp add: emit_def invocations_append)
  moreover have "length (progress_lines (trace r)) = 2 + 2 * N"
    using wi s6 assms(6) unfolding r by (simp add: emit_def progress_lines_append)
  moreover have "end_signals (trace r) = [Finished_signal]"
    using w s6 unfolding r by (simp add: emit_def end_signals_append)
  ultimately show ?thesis by simp
qed

lemma example_matching:
  "matching_paths (str ''*.txt'') example_tree = [str ''d/a.txt'', str ''d/b.txt'']"
  by (simp add: example_tree_def Window_matches_filter_def str_def py_strip_def isspace_def
      py_endswith_def os_path_join_def)

lemma example_invocations:
  "expected_invocations example_files (str ''zh-CN-YunjianNeural'') (str ''*.txt'') example_tree =
     [[str ''edge-tts'', str ''--voice'', str ''zh-CN-YunjianNeural'',
       str ''--file'', str ''/tmp/tmpk3v9.txt'', str ''--write-media'', str ''d/a.mp3'']]"
proof -
  have s: "py_strip (str ''hello'') = str ''hello''" "py_strip [] = []"
    by (simp_all add: py_strip_def str_def isspace_def)
  have h: "str ''hello'' \<noteq> []" by (simp add: str_def)
  have m: "filter (\<lambda>fn. Window_matches_filter fn (str ''*.txt''))
      [str ''a.txt'', str ''b.txt'', str ''c.md''] = [str ''a.txt'', str ''b.txt'']"
    by (simp add: Window_matches_filter_def str_def py_strip_def isspace_def py_endswith_def)
  have j: "os_path_join (str ''d'') (str ''a.txt'') = str ''d/a.txt''"
    "os_path_join (str ''d'') (str ''b.txt'') = str ''d/b.txt''"
    "mp3Path (str ''d'') (str ''a.txt'') = str ''d/a.mp3''"
    by (simp_all add: os_path_join_def str_def py_endswith_def mp3Path_def)
  have n: "str ''d/a.txt'' \<noteq> str ''d/b.txt''" by (simp add: str_def)
  show ?thesis
    unfolding example_tree_def expected_invocations.simps m
    by (simp add: j n example_files_def example_file_def file_invocations_def staging_def s h)
qed

theorem all_matching_files_processed_once_witness:
  "total_files (run example_env (example_thread (str ''*.txt''))) = 2
   \<and> processed_files (run example_env (example_thread (str ''*.txt''))) = 2
   \<and> opened_files (trace (run example_env (example_thread (str ''*.txt'')))) =
       [str ''d/a.txt'', str ''d/b.txt'']
   \<and> progress_updates (trace (run example_env (example_thread (str ''*.txt'')))) =
       [(0, 2), (1, 2), (2, 2)]
   \<and> invocations (trace (run example_env (example_thread (str ''*.txt'')))) =
       [[str ''edge-tts'', str ''--voice'', str ''zh-CN-YunjianNeural'',
         str ''--file'', str ''/tmp/tmpk3v9.txt'', str ''--write-media'', str ''d/a.mp3'']]
   \<and> length (progress_lines (trace (run example_env (example_thread (str ''*.txt''))))) = 6"
proof -
  have 1: "first_walk example_env = walk_of_list example_tree"
    and 2: "second_walk example_env = walk_of_list example_tree"
    and 3: "\<not> stop_before_loop example_env"
    and 4: "\<forall>p. \<not> stop_called (files example_env p)"
    by (simp_all add: example_env_def example_files_def example_file_def)
  have 5: "run example_env (example_thread (str ''*.txt'')) =
      run example_env (ConversionThread_init (str ''d'') (str ''zh-CN-YunjianNeural'') (str ''*.txt''))"
    by (simp add: example_thread_def)
  have f: "files example_env = example_files" by (simp add: example_env_def)
  show ?thesis
    using all_matching_files_processed_once[OF 1 2 3 4 5 refl]
    unfolding example_matching f example_invocations by (simp add: numeral_2_eq_2)
qed

theorem cancellation_at_item_boundary_witness:
  "files_loop example_files_stop (str ''d'') [str ''a.txt'', str ''b.txt'', str ''c.md'']
     (example_thread (str ''*.txt'')) =
   stop (convert_file (example_files_stop (str ''d/a.txt'')) (str ''d'') (str ''a.txt'')
     (example_thread (str ''*.txt'')))
   \<and> opened_files (trace (files_loop example_files_stop (str ''d'')
        [str ''a.txt'', str ''b.txt'', str ''c.md''] (example_thread (str ''*.txt'')))) =
      [str ''d/a.txt'']
   \<and> files_loop example_files_stop (str ''d'') [str ''b.txt'', str ''c.md'']
        (stop (example_thread (str ''*.txt''))) = stop (example_thread (str ''*.txt''))"
proof -
  let ?self = "example_thread (str ''*.txt'')"
  have j: "os_path_join (str ''d'') (str ''a.txt'') = str ''d/a.txt''"
    by (simp add: os_path_join_def str_def py_endswith_def)
  have r: "is_running ?self" "trace ?self = []"
    by (simp_all add: example_thread_def ConversionThread_init_def)
  have s: "stop_called (example_files_stop (os_path_join (str ''d'') (str ''a.txt'')))"
    unfolding j by (simp add: example_files_stop_def)
  have m: "matches_filter ?self (str ''a.txt'')"
    by (simp add: matches_filter_def example_thread_def ConversionThread_init_def str_def
        py_strip_def isspace_def py_endswith_def)
  have n: "\<not> is_running (stop ?self)" by (simp add: stop_def)
  show ?thesis
    using cancellation_at_item_boundary[of ?self example_files_stop "str ''d''"
        "[str ''b.txt'', str ''c.md'']" Walk_done "example_files_stop (str ''d/a.txt'')"
        "str ''a.txt''" "[]"]
      cancellation_at_item_boundary[of "stop ?self" example_files_stop "str ''d''"
        "[str ''b.txt'', str ''c.md'']" Walk_done "example_files_stop (str ''d/a.txt'')"
        "str ''a.txt''" "[]"]
      r s m n
    by (simp add: j stop_fields convert_file_opened)
qed

lemma files_loop_end_signals:
  "end_signals (trace (files_loop fenv d fns self)) = end_signals (trace self)"
  by (induction fns arbitrary: self) (simp_all add: Let_def convert_file_end_signals stop_fields)

lemma convert_walk_end_signals:
  "end_signals (trace (snd (convert_walk fenv wk self))) = end_signals (trace self)"
  by (induction wk arbitrary: self) (simp_all add: files_loop_end_signals)

lemma count_walk_trace: "trace (snd (count_walk wk self)) = trace self"
  by (induction wk arbitrary: self) (simp_all add: count_files_eq)

lemma run_body_end_signals:
  "end_signals (trace (snd (run_body env self))) = end_signals (trace self)"
proof -
  let ?s3 = "(emit (Progress_signal (ensure_edge_tts_updated (pip_result env)))
               (emit (Progress_signal msg_checking) self))\<lparr>total_files := 0\<rparr>"
  have e3: "end_signals (trace ?s3) = end_signals (trace self)"
    by (simp add: emit_def end_signals_append)
  obtain x s4 where c: "count_walk (first_walk env) ?s3 = (x, s4)" by fastforce
  have t4: "trace s4 = trace ?s3" using count_walk_trace[of "first_walk env" ?s3] c by simp
  show ?thesis
  proof (cases x)
    case None
    then show ?thesis using c t4 e3
      by (simp add: run_body_def Let_def convert_walk_end_signals stop_fields emit_def
          end_signals_append)
  next
    case (Some e)
    then show ?thesis using c t4 e3 by (simp add: run_body_def Let_def)
  qed
qed

text \<open>
  C10. Whatever the run meets, the signals that end it are: the completion signal alone
  when no exception reaches the handler of \<open>run\<close> (all files handled, or the loop left
  on cancellation), and the error signal followed by the completion signal when one
  does. The completion signal is the last event of every run.
\<close>
theorem run_always_finishes_once:
  "end_signals (trace (run env (ConversionThread_init folder v flt))) =
     (case fst (run_body env (ConversionThread_init folder v flt)) of
        None \<Rightarrow> [Finished_signal]
      | Some e \<Rightarrow> [Error_signal (msg_program_error e), Finished_signal])
   \<and> last (trace (run env (ConversionThread_init folder v flt))) = Emit Finished_signal"
proof -
  let ?init = "ConversionThread_init folder v flt"
  have "end_signals (trace (snd (run_body env ?init))) = []"
    using run_body_end_signals[of env ?init] by (simp add: ConversionThread_init_def)
  then show ?thesis
    by (cases "run_body env ?init")
      (auto simp: run_def emit_def end_signals_append split: option.splits)
qed

section \<open>The progress estimator: properties\<close>

lemma bit_length_le: "n < 2 ^ k \<Longrightarrow> bit_length n \<le> k"
proof (induction k arbitrary: n)
  case 0
  then show ?case by (simp add: bit_length.simps)
next
  case (Suc k)
  have "n div 2 < 2 ^ k" using Suc.prems by simp
  then have "bit_length (n div 2) \<le> k" by (rule Suc.IH)
  then show ?case by (subst bit_length.simps) simp
qed

lemma bit_length_pos: "0 < n \<Longrightarrow> 0 < bit_length n"
  by (subst bit_length.simps) simp

lemma pow2_nonpos: "e \<le> 0 \<Longrightarrow> pow2 e = 1 / 2 ^ nat (- e)"
  by (cases "e = 0") (simp_all add: pow2_def)

lemma round_half_even_int: "round_half_even (of_int i) = i"
  by (simp add: round_half_even_def)

lemma round_double_int:
  assumes "\<bar>k\<bar> < 2 ^ 53"
  shows "round_double (of_int k) = Some (of_int k)"
proof (cases "k = 0")
  case True
  then show ?thesis by (simp add: round_double_def)
next
  case False
  define j where "j = \<bar>k\<bar>"
  define l where "l = bit_length j"
  have j: "1 \<le> j" "j < 2 ^ 53" using False assms by (simp_all add: j_def)
  have l53: "l \<le> 53" unfolding l_def using j(2) by (rule bit_length_le)
  have l1: "1 \<le> l" unfolding l_def using bit_length_pos[of j] j by simp
  have a: "\<bar>rat_of_int k\<bar> = of_int j" by (simp add: j_def)
  have b: "binade (of_int j) = int l - 1" using j by (simp add: binade_def l_def)
  define e where "e = int l - 53"
  have e: "max (binade (of_int j) - 52) (- 1074) = e" "e \<le> 0"
    using l1 l53 by (simp_all add: b e_def)
  define p :: nat where "p = nat (- e)"
  have pe: "pow2 e = 1 / 2 ^ p" unfolding p_def using e(2) by (rule pow2_nonpos)
  have q: "rat_of_int j / pow2 e = of_int (j * 2 ^ p)" by (simp add: pe)
  have m: "round_half_even (rat_of_int j / pow2 e) = j * 2 ^ p"
    unfolding q by (rule round_half_even_int)
  have v: "rat_of_int (j * 2 ^ p) * pow2 e = of_int j" by (simp add: pe)
  have "(of_int j :: rat) < 2 ^ 53" using j(2) by (metis of_int_less_numeral_power_cancel_iff)
  also have "\<dots> < 2 ^ 1024" by simp
  finally have lt: "\<not> (2 :: rat) ^ 1024 \<le> of_int j" by simp
  have s: "(if rat_of_int k < 0 then - rat_of_int j else of_int j) = of_int k"
    by (simp add: j_def)
  have nz: "rat_of_int k \<noteq> 0" using False by simp
  show ?thesis
    unfolding round_double_def a Let_def e(1) m v using nz lt s by simp
qed

lemma floor_rat_div:
  fixes x :: rat
  assumes "0 < n"
  shows "\<lfloor>x / of_int n\<rfloor> = \<lfloor>x\<rfloor> div n"
proof (rule floor_unique)
  let ?f = "\<lfloor>x\<rfloor>"
  have n: "(0::rat) < of_int n" using assms by simp
  have lo: "of_int ?f \<le> x" and hi: "x < of_int ?f + 1" by linarith+
  have dm: "?f = n * (?f div n) + ?f mod n" by simp
  have m0: "0 \<le> ?f mod n" and m1: "?f mod n < n" using assms by simp_all
  have "n * (?f div n) \<le> ?f" using dm m0 by linarith
  then have "(of_int (n * (?f div n)) :: rat) \<le> of_int ?f" by (simp only: of_int_le_iff)
  then have "(of_int (?f div n) :: rat) * of_int n \<le> of_int ?f" by (simp add: mult.commute)
  then have "(of_int (?f div n) :: rat) * of_int n \<le> x" using lo by (rule order_trans)
  then show "of_int (?f div n) \<le> x / of_int n" using n by (simp add: pos_le_divide_eq)
  have "?f + 1 \<le> n * (?f div n) + n" using dm m1 by linarith
  then have "(of_int (?f + 1) :: rat) \<le> of_int (n * (?f div n) + n)" by (simp only: of_int_le_iff)
  then have "(of_int ?f + 1 :: rat) \<le> (of_int (?f div n) + 1) * of_int n"
    by (simp add: algebra_simps)
  with hi have "x < (of_int (?f div n) + 1) * of_int n" by (rule less_le_trans)
  then show "x / of_int n < of_int (?f div n) + 1" using n by (simp add: pos_divide_less_eq)
qed

lemma c_fmod_nonneg:
  fixes x :: rat
  assumes "0 \<le> x" and "0 < w"
  shows "c_fmod x (of_int w) = x - of_int (w * (\<lfloor>x\<rfloor> div w))"
    and "0 \<le> c_fmod x (of_int w)"
    and "\<lfloor>c_fmod x (of_int w)\<rfloor> = \<lfloor>x\<rfloor> mod w"
proof -
  have "0 \<le> x / of_int w" using assms by simp
  then have "trunc (x / of_int w) = \<lfloor>x\<rfloor> div w"
    using floor_rat_div[OF assms(2), of x] by (simp add: trunc_def)
  then show e: "c_fmod x (of_int w) = x - of_int (w * (\<lfloor>x\<rfloor> div w))"
    by (simp add: c_fmod_def)
  have "\<lfloor>x - of_int (w * (\<lfloor>x\<rfloor> div w))\<rfloor> = \<lfloor>x\<rfloor> - w * (\<lfloor>x\<rfloor> div w)"
    by (rule floor_diff_of_int)
  also have "\<dots> = \<lfloor>x\<rfloor> mod w" by (simp add: minus_mult_div_eq_mod)
  finally show f: "\<lfloor>c_fmod x (of_int w)\<rfloor> = \<lfloor>x\<rfloor> mod w" unfolding e .
  have "0 \<le> \<lfloor>x\<rfloor> mod w" using assms(2) by simp
  then have "0 \<le> \<lfloor>c_fmod x (of_int w)\<rfloor>" using f by simp
  then show "0 \<le> c_fmod x (of_int w)" by (simp add: zero_le_floor[symmetric] del: zero_le_floor)
qed

lemma float_rem_nonneg:
  fixes x :: rat
  assumes "0 \<le> x" and "0 < w"
  shows "float_rem (Some x) (of_int w) = Some (c_fmod x (of_int w))"
  using c_fmod_nonneg(2)[OF assms] assms(2) by (simp add: float_rem_def Let_def)

lemma float_floor_div_nonneg:
  fixes x :: rat
  assumes "0 \<le> x" and "x < 2 ^ 53" and "0 < w"
  shows "float_floor_div (Some x) (of_int w) = Some (of_int (\<lfloor>x\<rfloor> div w))"
proof -
  define n where "n = \<lfloor>x\<rfloor> div w"
  define r where "r = c_fmod x (of_int w)"
  have r: "r = x - of_int (w * n)" "0 \<le> r"
    unfolding r_def n_def using c_fmod_nonneg[OF assms(1,3)] by simp_all
  have f: "0 \<le> \<lfloor>x\<rfloor>" "\<lfloor>x\<rfloor> < 2 ^ 53" using assms(1,2) by (simp_all add: floor_less_iff)
  have n0: "0 \<le> n" unfolding n_def using f(1) assms(3) by (simp add: pos_imp_zdiv_nonneg_iff)
  have "w * n \<le> \<lfloor>x\<rfloor>" unfolding n_def using assms(3)
    by (metis mult.commute div_mult_mod_eq add.commute le_add_same_cancel2 pos_mod_sign)
  moreover have "0 \<le> w * n" using n0 assms(3) by simp
  ultimately have wn: "\<bar>w * n\<bar> < 2 ^ 53" using f(2) by linarith
  have "n \<le> w * n" using n0 assms(3) by (simp add: mult_le_cancel_right1)
  then have nn: "\<bar>n\<bar> < 2 ^ 53" using wn n0 by linarith
  have s1: "float_sub (Some x) (Some r) = Some (of_int (w * n))"
    using round_double_int[OF wn] by (simp add: float_sub_def r(1))
  have "rat_of_int (w * n) / rat_of_int w = of_int n" using assms(3) by simp
  then have s2: "float_div (Some (of_int (w * n))) (Some (of_int w)) = Some (of_int n)"
    using round_double_int[OF nn] assms(3) by (simp add: float_div_def)
  have c: "\<not> (r \<noteq> 0 \<and> ((rat_of_int w < 0) \<noteq> (r < 0)))" using r(2) assms(3) by simp
  have z: "float_sub (Some (rat_of_int n)) (Some (of_int \<lfloor>rat_of_int n\<rfloor>)) = Some 0"
    by (simp add: float_sub_def round_double_def)
  show ?thesis
    unfolding float_floor_div_def option.case Let_def r_def[symmetric] s1 s2 if_not_P[OF c]
      n_def[symmetric]
    using z by (cases "n = 0") simp_all
qed

lemma units_of_estimate:
  fixes x :: rat
  assumes "0 \<le> x" and "x < 2 ^ 53"
  shows "py_int (float_floor_div (Some x) 3600) = Some (\<lfloor>x\<rfloor> div 3600)"
    and "py_int (float_floor_div (float_rem (Some x) 3600) 60) = Some (\<lfloor>x\<rfloor> mod 3600 div 60)"
    and "py_int (float_rem (Some x) 60) = Some (\<lfloor>x\<rfloor> mod 60)"
proof -
  have t: "py_int (Some (rat_of_int k)) = Some k" for k by (simp add: py_int_def trunc_def)
  show "py_int (float_floor_div (Some x) 3600) = Some (\<lfloor>x\<rfloor> div 3600)"
    using float_floor_div_nonneg[OF assms, of 3600] by (simp add: t)
  have r: "float_rem (Some x) 3600 = Some (c_fmod x 3600)"
    using float_rem_nonneg[OF assms(1), of 3600] by simp
  have c: "0 \<le> c_fmod x 3600" "\<lfloor>c_fmod x 3600\<rfloor> = \<lfloor>x\<rfloor> mod 3600"
    "c_fmod x 3600 = x - of_int (3600 * (\<lfloor>x\<rfloor> div 3600))"
    using c_fmod_nonneg[OF assms(1), of 3600] by simp_all
  have "0 \<le> \<lfloor>x\<rfloor> div 3600" using assms(1) by (simp add: pos_imp_zdiv_nonneg_iff)
  then have "c_fmod x 3600 \<le> x" unfolding c(3) by simp
  then have lt: "c_fmod x 3600 < 2 ^ 53" using assms(2) by linarith
  show "py_int (float_floor_div (float_rem (Some x) 3600) 60) = Some (\<lfloor>x\<rfloor> mod 3600 div 60)"
    unfolding r using float_floor_div_nonneg[OF c(1) lt, of 60] c(2) by (simp add: t)
  have "float_rem (Some x) 60 = Some (c_fmod x 60)"
    using float_rem_nonneg[OF assms(1), of 60] by simp
  moreover have "0 \<le> c_fmod x 60" "\<lfloor>c_fmod x 60\<rfloor> = \<lfloor>x\<rfloor> mod 60"
    using c_fmod_nonneg[OF assms(1), of 60] by simp_all
  ultimately show "py_int (float_rem (Some x) 60) = Some (\<lfloor>x\<rfloor> mod 60)"
    by (simp add: py_int_def trunc_def)
qed

lemma round_double_eval:
  assumes "q \<noteq> 0" and "binade \<bar>q\<bar> = b" and "e = max (b - 52) (- 1074)"
    and "round_half_even (\<bar>q\<bar> / pow2 e) = m" and "of_int m * pow2 e = v" and "v < 2 ^ 1024"
  shows "round_double q = Some (if q < 0 then - v else v)"
  unfolding round_double_def Let_def if_not_P[OF assms(1)] assms(2) assms(3)[symmetric]
    assms(4) assms(5)
  using assms(6) by simp

lemma floor_rat_numeral:
  "\<lfloor>numeral a / numeral b :: rat\<rfloor> = numeral a div numeral b"
  using floor_divide_of_int_eq[of "numeral a" "numeral b", where ?'a = rat] by simp

lemma render_not_calculating: "render_estimate h m s \<noteq> msg_calculating"
  by (simp add: render_estimate_def txt_remaining_def msg_calculating_def)

lemma update_started:
  assumes "start_time pe = Some t" and "t \<noteq> 0" and "0 \<le> completed_files pe"
  shows "fst (update now pe) =
           (case (py_int (float_floor_div
                     (estimate (ProgressEstimator.total_files pe) (completed_files pe + 1) now t) 3600),
                  py_int (float_floor_div (float_rem
                     (estimate (ProgressEstimator.total_files pe) (completed_files pe + 1) now t) 3600) 60),
                  py_int (float_rem
                     (estimate (ProgressEstimator.total_files pe) (completed_files pe + 1) now t) 60)) of
              (Some h, Some m, Some s) \<Rightarrow> Some (render_estimate h m s)
            | _ \<Rightarrow> None)"
  using assms
  by (simp add: update_def Let_def estimate_def render_estimate_def split: option.splits)

lemma update_estimate:
  assumes "start_time pe = Some t" and "t \<noteq> 0" and "0 \<le> completed_files pe"
    and "estimate (ProgressEstimator.total_files pe) (completed_files pe + 1) now t = Some x"
    and "0 \<le> x" and "x < 2 ^ 53"
  shows "fst (update now pe) =
           Some (render_estimate (\<lfloor>x\<rfloor> div 3600) (\<lfloor>x\<rfloor> mod 3600 div 60) (\<lfloor>x\<rfloor> mod 60))"
  unfolding update_started[OF assms(1-3)] assms(4)
  using units_of_estimate[OF assms(5,6)] by simp

lemma round_double_small:
  "round_double 1 = Some 1" "round_double 2 = Some 2" "round_double 5 = Some 5"
  "round_double 8 = Some 8" "round_double 9 = Some 9" "round_double 10 = Some 10"
  "round_double 40 = Some 40" "round_double 49 = Some 49" "round_double 90 = Some 90"
  "round_double 99 = Some 99" "round_double 100 = Some 100" "round_double 9900 = Some 9900"
  using round_double_int[of 1] round_double_int[of 2] round_double_int[of 5]
    round_double_int[of 8] round_double_int[of 9] round_double_int[of 10]
    round_double_int[of 40] round_double_int[of 49] round_double_int[of 90]
    round_double_int[of 99] round_double_int[of 100] round_double_int[of 9900]
  by simp_all

lemmas float_ops = estimate_def float_mul_def float_div_def float_sub_def float_of_int_def

lemma estimate_examples:
  "estimate 10 2 110 100 = Some 40"
  "estimate 10 1 110 100 = Some 90"
  "estimate 100 1 200 100 = Some 9900"
  by (simp_all add: float_ops round_double_small)

lemma round_double_49th: "round_double (1 / 49) = Some (5882252574524729 / 2 ^ 58)"
proof -
  have "round_double (1 / 49) = Some (if (1 / 49 :: rat) < 0 then - (5882252574524729 / 2 ^ 58)
      else 5882252574524729 / 2 ^ 58)"
  proof (rule round_double_eval[where b = "- 6" and e = "- 58" and m = 5882252574524729])
    show "binade \<bar>1 / 49\<bar> = - 6"
      by (simp add: binade_def pow2_def Let_def bit_length.simps)
    show "round_half_even (\<bar>1 / 49\<bar> / pow2 (- 58)) = 5882252574524729"
      by (simp add: pow2_def round_half_even_def Let_def floor_rat_numeral)
    show "rat_of_int 5882252574524729 * pow2 (- 58) = 5882252574524729 / 2 ^ 58"
      by (simp add: pow2_def)
  qed simp_all
  then show ?thesis by simp
qed

lemma round_double_49_times:
  "round_double (49 * (5882252574524729 / 2 ^ 58)) = Some (9007199254740991 / 2 ^ 53)"
proof -
  let ?q = "49 * (5882252574524729 / 2 ^ 58) :: rat"
  have "round_double ?q = Some (if ?q < 0 then - (9007199254740991 / 2 ^ 53)
      else 9007199254740991 / 2 ^ 53)"
  proof (rule round_double_eval[where b = "- 1" and e = "- 53" and m = 9007199254740991])
    show "binade \<bar>?q\<bar> = - 1"
      by (simp add: binade_def pow2_def Let_def bit_length.simps floor_rat_numeral)
    show "round_half_even (\<bar>?q\<bar> / pow2 (- 53)) = 9007199254740991"
      by (simp add: pow2_def round_half_even_def Let_def floor_rat_numeral)
    show "rat_of_int 9007199254740991 * pow2 (- 53) = 9007199254740991 / 2 ^ 53"
      by (simp add: pow2_def)
  qed simp_all
  then show ?thesis by simp
qed

lemma estimate_rounds_down:
  "estimate 98 49 101 100 = Some (9007199254740991 / 2 ^ 53)"
  using round_double_49th round_double_49_times
  by (simp add: float_ops round_double_small)

lemma round_double_60_11th: "round_double (60 / 11) = Some (6141272219141585 / 2 ^ 50)"
proof -
  have "round_double (60 / 11) = Some (if (60 / 11 :: rat) < 0 then - (6141272219141585 / 2 ^ 50)
      else 6141272219141585 / 2 ^ 50)"
  proof (rule round_double_eval[where b = 2 and e = "- 50" and m = 6141272219141585])
    show "binade \<bar>60 / 11\<bar> = 2"
      by (simp add: binade_def pow2_def Let_def bit_length.simps floor_rat_numeral)
    show "round_half_even (\<bar>60 / 11\<bar> / pow2 (- 50)) = 6141272219141585"
      by (simp add: pow2_def round_half_even_def Let_def floor_rat_numeral)
    show "rat_of_int 6141272219141585 * pow2 (- 50) = 6141272219141585 / 2 ^ 50"
      by (simp add: pow2_def)
  qed simp_all
  then show ?thesis by simp
qed

lemma round_double_11_times:
  "round_double (11 * (6141272219141585 / 2 ^ 50)) = Some (8444249301319679 / 2 ^ 47)"
proof -
  let ?q = "11 * (6141272219141585 / 2 ^ 50) :: rat"
  have "round_double ?q = Some (if ?q < 0 then - (8444249301319679 / 2 ^ 47)
      else 8444249301319679 / 2 ^ 47)"
  proof (rule round_double_eval[where b = 5 and e = "- 47" and m = 8444249301319679])
    show "binade \<bar>?q\<bar> = 5"
      by (simp add: binade_def pow2_def Let_def bit_length.simps floor_rat_numeral)
    show "round_half_even (\<bar>?q\<bar> / pow2 (- 47)) = 8444249301319679"
      by (simp add: pow2_def round_half_even_def Let_def floor_rat_numeral)
    show "rat_of_int 8444249301319679 * pow2 (- 47) = 8444249301319679 / 2 ^ 47"
      by (simp add: pow2_def)
  qed simp_all
  then show ?thesis by simp
qed

lemma round_double_small2: "round_double 60 = Some 60" "round_double 11 = Some 11"
  using round_double_int[of 60] round_double_int[of 11] by simp_all

lemma estimate_below_minute:
  "estimate 22 11 160 100 = Some (8444249301319679 / 2 ^ 47)"
  using round_double_60_11th round_double_11_times
  by (simp add: float_ops round_double_small2)

lemma str_int_59: "str_int 59 = str ''59''" by (simp add: str_int_def digits.simps str_def)

lemma str_int_examples:
  "str_int 0 = str ''0''" "str_int 1 = str ''1''" "str_int 2 = str ''2''"
  "str_int 30 = str ''30''" "str_int 40 = str ''40''" "str_int 45 = str ''45''"
  by (simp_all add: str_int_def digits.simps str_def)

text \<open>
  A started estimator that has counted no completion answers the first \<open>update\<close> with an
  estimate (\<open>c = 1\<close>: 9 files at 10 seconds each), not with the indeterminate text. The
  estimate is a float: with \<open>T = 98\<close>, \<open>c = 49\<close> and one second elapsed, \<open>1 / 49\<close> and its
  product with 49 are rounded, the estimate is \<open>1 - 2 ^ (- 53)\<close> and the text shows 0
  seconds, where \<open>(T - c) * (e / c)\<close> is 1; with \<open>T = 22\<close>, \<open>c = 11\<close> and 60 seconds
  elapsed the text shows 59 seconds, where \<open>(T - c) * (e / c)\<close> is one minute. An
  estimator started at clock reading zero answers with the indeterminate text although
  \<open>c = 2\<close>.
\<close>
theorem started_estimator_reports_estimate:
  "completed_files (start 100 10 ProgressEstimator_init) = 0
   \<and> fst (update 110 (start 100 10 ProgressEstimator_init)) =
       Some (txt_remaining @ str ''1'' @ txt_minutes @ str ''30'' @ txt_seconds)
   \<and> fst (update 110 (start 100 10 ProgressEstimator_init)) \<noteq> Some msg_calculating
   \<and> fst (update 101 ((start 100 98 ProgressEstimator_init)\<lparr>completed_files := 48\<rparr>)) =
       Some (txt_remaining @ str ''0'' @ txt_seconds)
   \<and> rat_of_int (98 - 49) * ((101 - 100) / rat_of_int 49) = 1
   \<and> fst (update 160 ((start 100 22 ProgressEstimator_init)\<lparr>completed_files := 10\<rparr>)) =
       Some (txt_remaining @ str ''59'' @ txt_seconds)
   \<and> rat_of_int (22 - 11) * ((160 - 100) / rat_of_int 11) = 60
   \<and> fst (update 10 ((start 0 10 ProgressEstimator_init)\<lparr>completed_files := 1\<rparr>)) =
       Some msg_calculating"
proof -
  let ?a = "start 100 10 ProgressEstimator_init"
  let ?b = "(start 100 98 ProgressEstimator_init)\<lparr>completed_files := 48\<rparr>"
  let ?c = "(start 100 22 ProgressEstimator_init)\<lparr>completed_files := 10\<rparr>"
  have c: "start_time ?c = Some 100" "completed_files ?c = 10"
    "ProgressEstimator.total_files ?c = 22"
    by (simp_all add: start_def ProgressEstimator_init_def)
  have 5: "fst (update 160 ?c) = Some (txt_remaining @ str ''59'' @ txt_seconds)"
    using update_estimate[of ?c 100 160 "8444249301319679 / 2 ^ 47"] c estimate_below_minute
    by (simp add: render_estimate_def str_int_59 floor_rat_numeral)
  have a: "start_time ?a = Some 100" "completed_files ?a = 0"
    "ProgressEstimator.total_files ?a = 10"
    and b: "start_time ?b = Some 100" "completed_files ?b = 48"
    "ProgressEstimator.total_files ?b = 98"
    by (simp_all add: start_def ProgressEstimator_init_def)
  have 1: "fst (update 110 ?a) =
      Some (txt_remaining @ str ''1'' @ txt_minutes @ str ''30'' @ txt_seconds)"
    using update_estimate[of ?a 100 110 90] a estimate_examples(2)
    by (simp add: render_estimate_def str_int_examples)
  have 2: "fst (update 110 ?a) \<noteq> Some msg_calculating"
    unfolding 1 by (simp add: txt_remaining_def msg_calculating_def)
  have 3: "fst (update 101 ?b) = Some (txt_remaining @ str ''0'' @ txt_seconds)"
    using update_estimate[of ?b 100 101 "9007199254740991 / 2 ^ 53"] b estimate_rounds_down
    by (simp add: render_estimate_def str_int_examples floor_rat_numeral)
  have 4: "fst (update 10 ((start 0 10 ProgressEstimator_init)\<lparr>completed_files := 1\<rparr>)) =
       Some msg_calculating"
    by (simp add: update_def start_def ProgressEstimator_init_def Let_def)
  show ?thesis using a(2) 1 2 3 4 5 by simp
qed

text \<open>
  C8. Let \<open>c\<close> be the completed count after the increment of \<open>update\<close>, \<open>T\<close> the total
  and \<open>now - t\<close> the elapsed time, for an estimator in a state that \<open>start\<close> and \<open>update\<close>
  can produce (a count that is not negative). \<open>update\<close> returns the indeterminate text
  exactly when the estimator was never started or was started at clock reading zero.
  Otherwise \<open>c > 0\<close>, the estimate is \<open>(T - c) * (elapsed / c)\<close> computed in float
  arithmetic, and the text shows hours and minutes when the hours are positive, else
  minutes and seconds when the minutes are positive, else the seconds alone, the units
  being the integers the code computes with \<open>//\<close>, \<open>%\<close> and \<open>int\<close> (the call raises when
  a value is not finite). For an estimate \<open>x\<close> with \<open>0 \<le> x < 2 ^ 53\<close> these units are
  the hours, minutes and seconds of its whole seconds: \<open>\<lfloor>x\<rfloor> div 3600\<close>,
  \<open>\<lfloor>x\<rfloor> mod 3600 div 60\<close> and \<open>\<lfloor>x\<rfloor> mod 60\<close>.
\<close>
theorem estimate_and_rendering:
  assumes "0 \<le> completed_files pe" and "c = completed_files pe + 1"
    and "T = ProgressEstimator.total_files pe" and "est = estimate T c now t"
  shows "(fst (update now pe) = Some msg_calculating \<longleftrightarrow>
            start_time pe = None \<or> start_time pe = Some 0)
       \<and> (start_time pe = Some t \<and> t \<noteq> 0 \<longrightarrow>
            fst (update now pe) =
              (case (py_int (float_floor_div est 3600),
                     py_int (float_floor_div (float_rem est 3600) 60),
                     py_int (float_rem est 60)) of
                 (Some h, Some m, Some s) \<Rightarrow> Some (render_estimate h m s)
               | _ \<Rightarrow> None))
       \<and> (start_time pe = Some t \<and> t \<noteq> 0 \<and> est = Some x \<and> 0 \<le> x \<and> x < 2 ^ 53 \<longrightarrow>
            fst (update now pe) =
              Some (render_estimate (\<lfloor>x\<rfloor> div 3600) (\<lfloor>x\<rfloor> mod 3600 div 60) (\<lfloor>x\<rfloor> mod 60)))
       \<and> completed_files (snd (update now pe)) = c \<and> 0 < c"
proof -
  have c: "0 < c" using assms(1,2) by simp
  have general: "fst (update now pe) =
              (case (py_int (float_floor_div (estimate T c now t') 3600),
                     py_int (float_floor_div (float_rem (estimate T c now t') 3600) 60),
                     py_int (float_rem (estimate T c now t') 60)) of
                 (Some h, Some m, Some s) \<Rightarrow> Some (render_estimate h m s)
               | _ \<Rightarrow> None)"
    if "start_time pe = Some t'" and "t' \<noteq> 0" for t'
    using update_started[OF that assms(1), of now] assms(2,3) by simp
  have a: "fst (update now pe) = Some msg_calculating \<longleftrightarrow>
            start_time pe = None \<or> start_time pe = Some 0"
  proof (cases "start_time pe")
    case None
    then show ?thesis by (simp add: update_def Let_def)
  next
    case (Some t')
    show ?thesis
    proof (cases "t' = 0")
      case True
      then show ?thesis using Some by (simp add: update_def Let_def)
    next
      case False
      then show ?thesis using general[OF Some False] Some render_not_calculating
        by (auto split: option.splits)
    qed
  qed
  have b: "start_time pe = Some t \<and> t \<noteq> 0 \<longrightarrow>
            fst (update now pe) =
              (case (py_int (float_floor_div est 3600),
                     py_int (float_floor_div (float_rem est 3600) 60),
                     py_int (float_rem est 60)) of
                 (Some h, Some m, Some s) \<Rightarrow> Some (render_estimate h m s)
               | _ \<Rightarrow> None)"
    using general[of t] assms(4) by simp
  have d: "start_time pe = Some t \<and> t \<noteq> 0 \<and> est = Some x \<and> 0 \<le> x \<and> x < 2 ^ 53 \<longrightarrow>
            fst (update now pe) =
              Some (render_estimate (\<lfloor>x\<rfloor> div 3600) (\<lfloor>x\<rfloor> mod 3600 div 60) (\<lfloor>x\<rfloor> mod 60))"
    using b units_of_estimate[of x] by auto
  have e: "completed_files (snd (update now pe)) = c"
    using assms(2) by (simp add: update_def Let_def split: option.splits prod.splits)
  show ?thesis using a b d e c by blast
qed

theorem estimate_and_rendering_witness:
  "fst (update 110 ((start 100 10 ProgressEstimator_init)\<lparr>completed_files := 1\<rparr>)) =
     Some (txt_remaining @ str ''40'' @ txt_seconds)
   \<and> fst (update 200 (start 100 100 ProgressEstimator_init)) =
     Some (txt_remaining @ str ''2'' @ txt_hours @ str ''45'' @ txt_minutes)
   \<and> fst (update 110 ProgressEstimator_init) = Some msg_calculating
   \<and> completed_files (snd (update 110 ((start 100 10 ProgressEstimator_init)
        \<lparr>completed_files := 1\<rparr>))) = 2"
proof -
  let ?a = "(start 100 10 ProgressEstimator_init)\<lparr>completed_files := 1\<rparr>"
  let ?b = "start 100 100 ProgressEstimator_init"
  let ?c = "ProgressEstimator_init"
  have f: "0 \<le> completed_files ?a" "completed_files ?a + 1 = 2"
    "ProgressEstimator.total_files ?a = 10" "start_time ?a = Some 100"
    "0 \<le> completed_files ?b" "completed_files ?b + 1 = 1"
    "ProgressEstimator.total_files ?b = 100" "start_time ?b = Some 100"
    "0 \<le> completed_files ?c" "start_time ?c = None"
    by (simp_all add: start_def ProgressEstimator_init_def)
  have u: "py_int (float_floor_div (Some 40) 3600) = Some 0"
    "py_int (float_floor_div (float_rem (Some 40) 3600) 60) = Some 0"
    "py_int (float_rem (Some 40) 60) = Some 40"
    "py_int (float_floor_div (Some 9900) 3600) = Some 2"
    "py_int (float_floor_div (float_rem (Some 9900) 3600) 60) = Some 45"
    "py_int (float_rem (Some 9900) 60) = Some 0"
    using units_of_estimate[of 40] units_of_estimate[of 9900] by simp_all
  show ?thesis
    using estimate_and_rendering[OF f(1) refl refl refl, of 110 100 40]
      estimate_and_rendering[OF f(5) refl refl refl, of 200 100 9900]
      estimate_and_rendering[OF f(9) refl refl refl, of 110 100 0]
    by (simp add: f estimate_examples render_estimate_def str_int_examples u)
qed

end
